theory Spec2Isabelle
  imports Main
begin

section \<open>The chunk manager of p2p-media-loader-hlsjs\<close>

text \<open>
  A shallow embedding of \<^verbatim>\<open>p2p-media-loader-hlsjs/lib/chunk-manager.ts\<close>: the classes
  \<^verbatim>\<open>Playlist\<close>, \<^verbatim>\<open>Chunk\<close> and \<^verbatim>\<open>ChunkManager\<close>. JavaScript strings are
  \<^typ>\<open>string\<close>; only equality, concatenation, \<^verbatim>\<open>lastIndexOf\<close>, \<^verbatim>\<open>substring\<close> and
  truthiness (the empty string is falsy) are used on them. A thrown exception is a value
  \<open>Inl e\<close>. Two collaborators are not part of the file and are parameters of every function
  that reaches them: the manifest parser (\<open>parse\<close>, the m3u8-parser package) and
  \<^verbatim>\<open>Utils.isAbsoluteUrl\<close> (\<open>isAbsoluteUrl\<close>).
\<close>

subsection \<open>Data\<close>

datatype error = UnexpectedPlaylistUrlFormat | TypeError | FetchError

text \<open>
  The parsed manifest object: \<^verbatim>\<open>manifest.segments[i].uri\<close> (only the uri of a segment is
  read) and \<^verbatim>\<open>manifest.playlists[k].uri\<close>, a property that is undefined on a media playlist.
  The fields of all records share one name space: \<^verbatim>\<open>segments\<close> and \<^verbatim>\<open>playlists\<close> of the
  manifest are \<open>manifest_segments\<close> and \<open>manifest_playlists\<close>, \<^verbatim>\<open>url\<close> of a chunk is
  \<open>chunkUrl\<close> and \<^verbatim>\<open>url\<close> of a loader file is \<open>fileUrl\<close>.
\<close>

record Manifest =
  manifest_segments :: "string list"
  manifest_playlists :: "string list option"

record Playlist =
  url :: string
  baseUrl :: string
  manifest :: Manifest

text \<open>
  A callback is a function object; the model keeps its identity only. Invoking a callback
  is recorded in the field \<open>invoked\<close> of the manager: the callback returns normally and does
  not call the manager while it runs.
\<close>

type_synonym callback = nat

record Chunk =
  chunkUrl :: string
  onSuccess :: "callback option"
  onError :: "callback option"

record LoaderFile =
  fileUrl :: string
  priority :: int

text \<open>One call \<^verbatim>\<open>loader.load(files, swarmId, loadUrl)\<close> of the loading engine.\<close>

record LoaderCall =
  files :: "LoaderFile list"
  swarmId :: string
  loadUrl :: "string option"

text \<open>
  A task handed to \<^verbatim>\<open>setTimeout\<close>: the retry of \<^verbatim>\<open>loadChunk\<close> (line 58) or the deferred
  call of \<^verbatim>\<open>onError\<close> (line 63). It is stored with its delay in milliseconds.
\<close>

datatype task =
  RetryLoadChunk string "callback option" "callback option" int
| CallOnError callback string

text \<open>
  The fields of \<^verbatim>\<open>ChunkManager\<close>, followed by what the object does to its surroundings:
  the pending timers, the calls made to the loader and the callbacks invoked, each in order.
  \<^verbatim>\<open>playlists\<close> is a JavaScript \<^verbatim>\<open>Map\<close>, which iterates in insertion order: an
  association list, updated in place.
\<close>

record ChunkManager =
  playlists :: "(string \<times> Playlist) list"
  chunk :: "Chunk option"
  prevLoadUrl :: "string option"
  playQueue :: "string list"
  timers :: "(nat \<times> task) list"
  loaderCalls :: "LoaderCall list"
  invoked :: "(callback \<times> string) list"

definition new_ChunkManager :: ChunkManager where
  "new_ChunkManager =
     \<lparr>playlists = [], chunk = None, prevLoadUrl = None, playQueue = [],
      timers = [], loaderCalls = [], invoked = []\<rparr>"

subsection \<open>JavaScript library functions\<close>

text \<open>\<^verbatim>\<open>Map.prototype.set\<close> and \<^verbatim>\<open>Map.prototype.delete\<close>.\<close>

fun Map_set :: "'k \<Rightarrow> 'v \<Rightarrow> ('k \<times> 'v) list \<Rightarrow> ('k \<times> 'v) list" where
  "Map_set k v [] = [(k, v)]"
| "Map_set k v ((k', v') # m) = (if k' = k then (k, v) # m else (k', v') # Map_set k v m)"

fun Map_delete :: "'k \<Rightarrow> ('k \<times> 'v) list \<Rightarrow> ('k \<times> 'v) list" where
  "Map_delete k [] = []"
| "Map_delete k ((k', v') # m) = (if k' = k then Map_delete k m else (k', v') # Map_delete k m)"

text \<open>\<^verbatim>\<open>String.prototype.lastIndexOf\<close> for a needle of one character.\<close>

fun lastIndexOf :: "string \<Rightarrow> char \<Rightarrow> int" where
  "lastIndexOf [] c = - 1"
| "lastIndexOf (x # xs) c =
     (let r = lastIndexOf xs c in if 0 \<le> r then r + 1 else if x = c then 0 else - 1)"

text \<open>\<^verbatim>\<open>Array.prototype.indexOf\<close>: the first position of an element, or -1.\<close>

fun indexOf :: "'a list \<Rightarrow> 'a \<Rightarrow> int" where
  "indexOf [] x = - 1"
| "indexOf (y # ys) x =
     (if y = x then 0 else (let r = indexOf ys x in if 0 \<le> r then r + 1 else - 1))"

text \<open>The decimal digits of a number, as \<^verbatim>\<open>"+" + i\<close> renders a loop counter.\<close>

definition digit :: "nat \<Rightarrow> char" where
  "digit n = ''0123456789'' ! n"

function String_of_nat :: "nat \<Rightarrow> string" where
  "String_of_nat n = (if n < 10 then [digit n] else String_of_nat (n div 10) @ [digit (n mod 10)])"
  by pat_completeness auto
termination
  by (relation "measure (\<lambda>n. n)") auto

declare String_of_nat.simps [simp del]

text \<open>The truthiness of an optional string: undefined and the empty string are falsy.\<close>

fun truthy :: "string option \<Rightarrow> bool" where
  "truthy None = False"
| "truthy (Some u) = (u \<noteq> [])"

text \<open>
  A JavaScript number is an IEEE 754 double. The retry count of \<^verbatim>\<open>loadChunk\<close> is a whole
  number, so the model has the integer values of the type, and the difference of two of them
  is rounded as a double is: to 53 significant bits, a tie to the even significand. The
  integers of magnitude up to \<open>2 ^ 53\<close> are not changed by the rounding.
\<close>

function shiftsTo53 :: "int \<Rightarrow> nat" where
  "shiftsTo53 a = (if a < 2 ^ 53 then 0 else Suc (shiftsTo53 (a div 2)))"
  by pat_completeness auto
termination
  by (relation "measure nat") auto

declare shiftsTo53.simps [simp del]

definition roundDouble :: "int \<Rightarrow> int" where
  "roundDouble n =
     (if \<bar>n\<bar> < 2 ^ 53 then n
      else
        (let e = shiftsTo53 \<bar>n\<bar>;
             q = \<bar>n\<bar> div 2 ^ e;
             rest = \<bar>n\<bar> mod 2 ^ e;
             half = 2 ^ (e - 1);
             m = (if half < rest \<or> (rest = half \<and> odd q) then q + 1 else q)
         in sgn n * (m * 2 ^ e)))"

definition Number_minus :: "int \<Rightarrow> int \<Rightarrow> int" where
  "Number_minus a b = roundDouble (a - b)"

subsection \<open>Class Playlist\<close>

definition new_Playlist :: "string \<Rightarrow> Manifest \<Rightarrow> error + Playlist" where
  "new_Playlist u m =
     (let pos = lastIndexOf u CHR ''/'' in
      if pos = - 1 then Inl UnexpectedPlaylistUrlFormat
      else Inr \<lparr>url = u, baseUrl = take (nat (pos + 1)) u, manifest = m\<rparr>)"

text \<open>Reading \<^verbatim>\<open>segments[index].uri\<close> outside the array raises a TypeError.\<close>

definition getChunkAbsoluteUrl :: "(string \<Rightarrow> bool) \<Rightarrow> Playlist \<Rightarrow> int \<Rightarrow> error + string" where
  "getChunkAbsoluteUrl isAbsoluteUrl p index =
     (if 0 \<le> index \<and> index < int (length (manifest_segments (manifest p))) then
        (let uri = manifest_segments (manifest p) ! nat index in
         Inr (if isAbsoluteUrl uri then uri else baseUrl p @ uri))
      else Inl TypeError)"

function getChunkIndex_loop :: "(string \<Rightarrow> bool) \<Rightarrow> Playlist \<Rightarrow> string \<Rightarrow> nat \<Rightarrow> error + int" where
  "getChunkIndex_loop isAbsoluteUrl p u i =
     (if i < length (manifest_segments (manifest p)) then
        (case getChunkAbsoluteUrl isAbsoluteUrl p (int i) of
           Inl e \<Rightarrow> Inl e
         | Inr a \<Rightarrow> if u = a then Inr (int i) else getChunkIndex_loop isAbsoluteUrl p u (i + 1))
      else Inr (- 1))"
  by pat_completeness auto
termination
  by (relation "measure (\<lambda>(isAbsoluteUrl, p, u, i). length (manifest_segments (manifest p)) - i)") auto

declare getChunkIndex_loop.simps [simp del]

definition getChunkIndex :: "(string \<Rightarrow> bool) \<Rightarrow> Playlist \<Rightarrow> string \<Rightarrow> error + int" where
  "getChunkIndex isAbsoluteUrl p u = getChunkIndex_loop isAbsoluteUrl p u 0"

fun getChildPlaylistAbsoluteUrls_loop ::
  "(string \<Rightarrow> bool) \<Rightarrow> string \<Rightarrow> string list \<Rightarrow> string list \<Rightarrow> string list" where
  "getChildPlaylistAbsoluteUrls_loop isAbsoluteUrl base [] urls = urls"
| "getChildPlaylistAbsoluteUrls_loop isAbsoluteUrl base (u # rest) urls =
     getChildPlaylistAbsoluteUrls_loop isAbsoluteUrl base rest
       (urls @ [if isAbsoluteUrl u then u else base @ u])"

definition getChildPlaylistAbsoluteUrls :: "(string \<Rightarrow> bool) \<Rightarrow> Playlist \<Rightarrow> string list" where
  "getChildPlaylistAbsoluteUrls isAbsoluteUrl p =
     (case manifest_playlists (manifest p) of
        None \<Rightarrow> []
      | Some refs \<Rightarrow> getChildPlaylistAbsoluteUrls_loop isAbsoluteUrl (baseUrl p) refs [])"

subsection \<open>Class ChunkManager\<close>

definition processHlsPlaylist ::
  "(string \<Rightarrow> Manifest) \<Rightarrow> string \<Rightarrow> string \<Rightarrow> ChunkManager \<Rightarrow> error + ChunkManager" where
  "processHlsPlaylist parse u content s =
     (case new_Playlist u (parse content) of
        Inl e \<Rightarrow> Inl e
      | Inr p \<Rightarrow> Inr (s\<lparr>playlists := Map_set u p (playlists s)\<rparr>))"

text \<open>
  \<^verbatim>\<open>loadHlsPlaylist\<close> with \<^verbatim>\<open>loadChildPlaylists = false\<close>. The outcome of
  \<^verbatim>\<open>Utils.fetchContent\<close> is an argument; the result is the manager together with the content
  returned or the exception raised again after the entry of the url was deleted. (With
  \<^verbatim>\<open>loadChildPlaylists = true\<close> every child that arrives is one more \<^verbatim>\<open>processHlsPlaylist\<close>.)
\<close>

definition loadHlsPlaylist ::
  "(string \<Rightarrow> Manifest) \<Rightarrow> string \<Rightarrow> error + string \<Rightarrow> ChunkManager \<Rightarrow> ChunkManager \<times> (error + string)" where
  "loadHlsPlaylist parse u fetched s =
     (case fetched of
        Inl e \<Rightarrow> (s\<lparr>playlists := Map_delete u (playlists s)\<rparr>, Inl e)
      | Inr content \<Rightarrow>
          (case processHlsPlaylist parse u content s of
             Inl e \<Rightarrow> (s\<lparr>playlists := Map_delete u (playlists s)\<rparr>, Inl e)
           | Inr s' \<Rightarrow> (s', Inr content)))"

fun getMasterPlaylist_loop :: "Playlist list \<Rightarrow> Playlist option" where
  "getMasterPlaylist_loop [] = None"
| "getMasterPlaylist_loop (p # ps) =
     (if manifest_playlists (manifest p) \<noteq> None then Some p else getMasterPlaylist_loop ps)"

definition getMasterPlaylist :: "ChunkManager \<Rightarrow> Playlist option" where
  "getMasterPlaylist s = getMasterPlaylist_loop (map snd (playlists s))"

function getSwarmId_loop :: "string list \<Rightarrow> string \<Rightarrow> string \<Rightarrow> nat \<Rightarrow> string option" where
  "getSwarmId_loop urls masterUrl playlistUrl i =
     (if i < length urls then
        (if urls ! i = playlistUrl then Some (masterUrl @ ''+'' @ String_of_nat i)
         else getSwarmId_loop urls masterUrl playlistUrl (i + 1))
      else None)"
  by pat_completeness auto
termination
  by (relation "measure (\<lambda>(urls, masterUrl, playlistUrl, i). length urls - i)") auto

declare getSwarmId_loop.simps [simp del]

definition getSwarmId :: "(string \<Rightarrow> bool) \<Rightarrow> ChunkManager \<Rightarrow> Playlist \<Rightarrow> string" where
  "getSwarmId isAbsoluteUrl s p =
     (case getMasterPlaylist s of
        None \<Rightarrow> url p
      | Some master \<Rightarrow>
          if url master \<noteq> url p then
            (case getSwarmId_loop (getChildPlaylistAbsoluteUrls isAbsoluteUrl master) (url master) (url p) 0 of
               Some sid \<Rightarrow> sid
             | None \<Rightarrow> url p)
          else url p)"

fun getChunkLocation_loop ::
  "(string \<Rightarrow> bool) \<Rightarrow> Playlist list \<Rightarrow> string \<Rightarrow> error + Playlist option \<times> int" where
  "getChunkLocation_loop isAbsoluteUrl [] u = Inr (None, - 1)"
| "getChunkLocation_loop isAbsoluteUrl (p # ps) u =
     (case getChunkIndex isAbsoluteUrl p u of
        Inl e \<Rightarrow> Inl e
      | Inr ci \<Rightarrow> if 0 \<le> ci then Inr (Some p, ci) else getChunkLocation_loop isAbsoluteUrl ps u)"

text \<open>The result object \<^verbatim>\<open>{ playlist, chunkIndex }\<close> is a pair.\<close>

definition getChunkLocation ::
  "(string \<Rightarrow> bool) \<Rightarrow> ChunkManager \<Rightarrow> string option \<Rightarrow> error + Playlist option \<times> int" where
  "getChunkLocation isAbsoluteUrl s u =
     (case u of
        None \<Rightarrow> Inr (None, - 1)
      | Some v \<Rightarrow>
          if truthy (Some v) then getChunkLocation_loop isAbsoluteUrl (map snd (playlists s)) v
          else Inr (None, - 1))"

function loadFiles_loop ::
  "(string \<Rightarrow> bool) \<Rightarrow> Playlist \<Rightarrow> int \<Rightarrow> int \<Rightarrow> LoaderFile list \<Rightarrow> error + LoaderFile list" where
  "loadFiles_loop isAbsoluteUrl p i prio fs =
     (if i < int (length (manifest_segments (manifest p))) then
        (case getChunkAbsoluteUrl isAbsoluteUrl p i of
           Inl e \<Rightarrow> Inl e
         | Inr u \<Rightarrow>
             loadFiles_loop isAbsoluteUrl p (i + 1) (prio + 1) (fs @ [\<lparr>fileUrl = u, priority = prio\<rparr>]))
      else Inr fs)"
  by pat_completeness auto
termination
  by (relation "measure (\<lambda>(isAbsoluteUrl, p, i, prio, fs).
        nat (int (length (manifest_segments (manifest p))) - i))") auto

declare loadFiles_loop.simps [simp del]

definition loadFiles ::
  "(string \<Rightarrow> bool) \<Rightarrow> Playlist \<Rightarrow> int \<Rightarrow> string option \<Rightarrow> ChunkManager \<Rightarrow> error + ChunkManager" where
  "loadFiles isAbsoluteUrl p ci lu s =
     (let prio = max 0 (int (length (playQueue s)) - 1) in
      case loadFiles_loop isAbsoluteUrl p ci prio [] of
        Inl e \<Rightarrow> Inl e
      | Inr fs \<Rightarrow>
          Inr (s\<lparr>loaderCalls := loaderCalls s @
                 [\<lparr>files = fs, swarmId = getSwarmId isAbsoluteUrl s p, loadUrl = lu\<rparr>]\<rparr>))"

definition message :: string where
  "message = ''Requested chunk cannot be located in known playlists''"

text \<open>Lines 69 to 80 of \<^verbatim>\<open>loadChunk\<close>: the play queue is kept or emptied.\<close>

definition loadChunk_sequence ::
  "(string \<Rightarrow> bool) \<Rightarrow> int \<Rightarrow> ChunkManager \<Rightarrow> error + ChunkManager" where
  "loadChunk_sequence isAbsoluteUrl loadingChunkIndex s =
     (if 0 < length (playQueue s) then
        (let prevChunkUrl = playQueue s ! (length (playQueue s) - 1) in
         case getChunkLocation isAbsoluteUrl s (Some prevChunkUrl) of
           Inl e \<Rightarrow> Inl e
         | Inr (prevLoadingPlaylist, prevLoadingChunkIndex) \<Rightarrow>
             if prevLoadingPlaylist \<noteq> None \<and> prevLoadingChunkIndex \<noteq> loadingChunkIndex - 1
             then Inr (s\<lparr>playQueue := []\<rparr>)
             else Inr s)
      else Inr s)"

text \<open>
  \<^verbatim>\<open>loadChunk(url, onSuccess, onError, playlistMissRetries)\<close>; a caller that leaves the last
  argument out passes 1.
\<close>

definition loadChunk ::
  "(string \<Rightarrow> bool) \<Rightarrow> string \<Rightarrow> callback option \<Rightarrow> callback option \<Rightarrow> int \<Rightarrow>
     ChunkManager \<Rightarrow> error + ChunkManager" where
  "loadChunk isAbsoluteUrl u onS onE playlistMissRetries s =
     (case getChunkLocation isAbsoluteUrl s (Some u) of
        Inl e \<Rightarrow> Inl e
      | Inr (loadingPlaylist, loadingChunkIndex) \<Rightarrow>
          (case loadingPlaylist of
             None \<Rightarrow>
               if 0 < playlistMissRetries then
                 Inr (s\<lparr>timers := timers s @
                        [(500, RetryLoadChunk u onS onE (Number_minus playlistMissRetries 1))]\<rparr>)
               else
                 (case onE of
                    Some f \<Rightarrow> Inr (s\<lparr>timers := timers s @ [(0, CallOnError f message)]\<rparr>)
                  | None \<Rightarrow> Inr s)
           | Some lp \<Rightarrow>
               (case loadChunk_sequence isAbsoluteUrl loadingChunkIndex s of
                  Inl e \<Rightarrow> Inl e
                | Inr s1 \<Rightarrow>
                    (case loadFiles isAbsoluteUrl lp loadingChunkIndex (Some u)
                            (s1\<lparr>chunk := Some \<lparr>chunkUrl = u, onSuccess = onS, onError = onE\<rparr>\<rparr>) of
                       Inl e \<Rightarrow> Inl e
                     | Inr s2 \<Rightarrow> Inr (s2\<lparr>prevLoadUrl := Some u\<rparr>)))))"

definition setCurrentChunk ::
  "(string \<Rightarrow> bool) \<Rightarrow> string option \<Rightarrow> ChunkManager \<Rightarrow> error + ChunkManager" where
  "setCurrentChunk isAbsoluteUrl u s =
     (case u of
        None \<Rightarrow> Inr s
      | Some v \<Rightarrow>
          if \<not> truthy (Some v) then Inr s
          else
            (let urlIndex = indexOf (playQueue s) v;
                 s1 = (if urlIndex < 0 then s
                       else s\<lparr>playQueue := drop (nat urlIndex) (playQueue s)\<rparr>)
             in if truthy (prevLoadUrl s1) then
                  (case getChunkLocation isAbsoluteUrl s1 (prevLoadUrl s1) of
                     Inl e \<Rightarrow> Inl e
                   | Inr (loadingPlaylist, loadingChunkIndex) \<Rightarrow>
                       (case loadingPlaylist of
                          Some lp \<Rightarrow> loadFiles isAbsoluteUrl lp loadingChunkIndex None s1
                        | None \<Rightarrow> Inr s1))
                else Inr s1))"

definition abortChunk :: "string \<Rightarrow> ChunkManager \<Rightarrow> ChunkManager" where
  "abortChunk u s =
     (case chunk s of
        Some c \<Rightarrow> if chunkUrl c = u then s\<lparr>chunk := None\<rparr> else s
      | None \<Rightarrow> s)"

text \<open>The three handlers of the loader's events. A \<^verbatim>\<open>LoaderFile\<close> event carries url and data.\<close>

definition onFileLoaded :: "string \<times> string \<Rightarrow> ChunkManager \<Rightarrow> ChunkManager" where
  "onFileLoaded file s =
     (case chunk s of
        Some c \<Rightarrow>
          if chunkUrl c = fst file then
            (let s1 = s\<lparr>playQueue := playQueue s @ [fst file]\<rparr>;
                 s2 = (case onSuccess c of
                         Some f \<Rightarrow> s1\<lparr>invoked := invoked s1 @ [(f, snd file)]\<rparr>
                       | None \<Rightarrow> s1)
             in s2\<lparr>chunk := None\<rparr>)
          else s
      | None \<Rightarrow> s)"

definition onFileError :: "string \<Rightarrow> string \<Rightarrow> ChunkManager \<Rightarrow> ChunkManager" where
  "onFileError u err s =
     (case chunk s of
        Some c \<Rightarrow>
          if chunkUrl c = u then
            (let s1 = (case onError c of
                         Some f \<Rightarrow> s\<lparr>invoked := invoked s @ [(f, err)]\<rparr>
                       | None \<Rightarrow> s)
             in s1\<lparr>chunk := None\<rparr>)
          else s
      | None \<Rightarrow> s)"

definition onFileAbort :: "string \<Rightarrow> ChunkManager \<Rightarrow> ChunkManager" where
  "onFileAbort u s =
     (case chunk s of
        Some c \<Rightarrow>
          if chunkUrl c = u then
            (let s1 = (case onError c of
                         Some f \<Rightarrow> s\<lparr>invoked := invoked s @ [(f, ''Loading aborted'')]\<rparr>
                       | None \<Rightarrow> s)
             in s1\<lparr>chunk := None\<rparr>)
          else s
      | None \<Rightarrow> s)"

subsection \<open>The event loop\<close>

text \<open>
  A pending timer fires: it leaves the timer list and its task runs. Any pending timer may be
  the next one, whatever its delay.
\<close>

definition runTask :: "(string \<Rightarrow> bool) \<Rightarrow> task \<Rightarrow> ChunkManager \<Rightarrow> error + ChunkManager" where
  "runTask isAbsoluteUrl t s =
     (case t of
        RetryLoadChunk u onS onE retries \<Rightarrow> loadChunk isAbsoluteUrl u onS onE retries s
      | CallOnError f msg \<Rightarrow> Inr (s\<lparr>invoked := invoked s @ [(f, msg)]\<rparr>))"

definition timerFires :: "(string \<Rightarrow> bool) \<Rightarrow> nat \<Rightarrow> ChunkManager \<Rightarrow> error + ChunkManager" where
  "timerFires isAbsoluteUrl k s =
     (if k < length (timers s) then
        runTask isAbsoluteUrl (snd (timers s ! k))
          (s\<lparr>timers := take k (timers s) @ drop (Suc k) (timers s)\<rparr>)
      else Inr s)"

text \<open>
  What can happen to a chunk manager: a call of one of its public methods, an event of the
  loader, or a timer firing. An exception reaches the caller and the manager lives on with the
  fields it had; \<^verbatim>\<open>loadChunk\<close> and \<^verbatim>\<open>setCurrentChunk\<close> never raise one, as is proved below.
\<close>

datatype action =
  ProcessHlsPlaylist string string
| LoadHlsPlaylist string "error + string"
| LoadChunk string "callback option" "callback option" int
| SetCurrentChunk "string option"
| AbortChunk string
| FileLoaded string string
| FileError string string
| FileAbort string
| TimerFires nat

definition keep :: "ChunkManager \<Rightarrow> error + ChunkManager \<Rightarrow> ChunkManager" where
  "keep s r = (case r of Inl e \<Rightarrow> s | Inr s' \<Rightarrow> s')"

fun step :: "(string \<Rightarrow> Manifest) \<Rightarrow> (string \<Rightarrow> bool) \<Rightarrow> action \<Rightarrow> ChunkManager \<Rightarrow> ChunkManager" where
  "step parse isAbsoluteUrl (ProcessHlsPlaylist u content) s = keep s (processHlsPlaylist parse u content s)"
| "step parse isAbsoluteUrl (LoadHlsPlaylist u fetched) s = fst (loadHlsPlaylist parse u fetched s)"
| "step parse isAbsoluteUrl (LoadChunk u onS onE retries) s = keep s (loadChunk isAbsoluteUrl u onS onE retries s)"
| "step parse isAbsoluteUrl (SetCurrentChunk u) s = keep s (setCurrentChunk isAbsoluteUrl u s)"
| "step parse isAbsoluteUrl (AbortChunk u) s = abortChunk u s"
| "step parse isAbsoluteUrl (FileLoaded u d) s = onFileLoaded (u, d) s"
| "step parse isAbsoluteUrl (FileError u err) s = onFileError u err s"
| "step parse isAbsoluteUrl (FileAbort u) s = onFileAbort u s"
| "step parse isAbsoluteUrl (TimerFires k) s =
     keep (s\<lparr>timers := take k (timers s) @ drop (Suc k) (timers s)\<rparr>) (timerFires isAbsoluteUrl k s)"

fun run :: "(string \<Rightarrow> Manifest) \<Rightarrow> (string \<Rightarrow> bool) \<Rightarrow> action list \<Rightarrow> ChunkManager \<Rightarrow> ChunkManager" where
  "run parse isAbsoluteUrl [] s = s"
| "run parse isAbsoluteUrl (a # as) s = run parse isAbsoluteUrl as (step parse isAbsoluteUrl a s)"

section \<open>Specification-level notions and examples\<close>

text \<open>
  The resolution rule in the words of the specification: an absolute URI is returned
  unchanged, any other URI is appended to the base URL.
\<close>

definition resolveUri :: "(string \<Rightarrow> bool) \<Rightarrow> string \<Rightarrow> string \<Rightarrow> string" where
  "resolveUri isAbsoluteUrl base uri = (if isAbsoluteUrl uri then uri else base @ uri)"

definition absoluteUrls :: "(string \<Rightarrow> bool) \<Rightarrow> Playlist \<Rightarrow> string list" where
  "absoluteUrls isAbsoluteUrl p =
     map (resolveUri isAbsoluteUrl (baseUrl p)) (manifest_segments (manifest p))"

text \<open>
  The forward batch in the words of the specification: one descriptor for every segment from
  index \<open>i\<close> to the end of the playlist, in playlist order, the priorities ascending from
  \<open>base\<close> in steps of one.
\<close>

definition batch :: "(string \<Rightarrow> bool) \<Rightarrow> Playlist \<Rightarrow> nat \<Rightarrow> int \<Rightarrow> LoaderFile list" where
  "batch isAbsoluteUrl p i base =
     map (\<lambda>j. \<lparr>fileUrl = absoluteUrls isAbsoluteUrl p ! j, priority = base + int (j - i)\<rparr>)
       [i..<length (manifest_segments (manifest p))]"

definition priorityBase :: "string list \<Rightarrow> int" where
  "priorityBase queue = max 0 (int (length queue) - 1)"

text \<open>The callbacks an action hands over, a task holds and the active chunk request holds.\<close>

fun callbacks :: "callback option \<Rightarrow> callback option \<Rightarrow> callback list" where
  "callbacks onS onE = (case onS of None \<Rightarrow> [] | Some f \<Rightarrow> [f]) @ (case onE of None \<Rightarrow> [] | Some g \<Rightarrow> [g])"

fun action_callbacks :: "action \<Rightarrow> callback list" where
  "action_callbacks (LoadChunk u onS onE retries) = callbacks onS onE"
| "action_callbacks a = []"

fun task_callbacks :: "task \<Rightarrow> callback list" where
  "task_callbacks (RetryLoadChunk u onS onE retries) = callbacks onS onE"
| "task_callbacks (CallOnError f msg) = [f]"

definition chunk_callbacks :: "Chunk option \<Rightarrow> callback list" where
  "chunk_callbacks c = (case c of None \<Rightarrow> [] | Some k \<Rightarrow> callbacks (onSuccess k) (onError k))"

text \<open>
  Modelled from the spec: \<^verbatim>\<open>Utils.isAbsoluteUrl\<close> is not among the source files. The
  specification recognises an absolute URI by the presence of a scheme, as in \<^verbatim>\<open>scheme://\<close>,
  that is by its containing the scheme separator. It instantiates the parameter
  \<open>isAbsoluteUrl\<close> in the examples; the theorems hold for every such function.
\<close>

fun startsWith :: "string \<Rightarrow> string \<Rightarrow> bool" where
  "startsWith s [] = True"
| "startsWith [] (c # cs) = False"
| "startsWith (x # xs) (c # cs) = (x = c \<and> startsWith xs cs)"

fun String_includes :: "string \<Rightarrow> string \<Rightarrow> bool" where
  "String_includes [] n = startsWith [] n"
| "String_includes (x # xs) n = (startsWith (x # xs) n \<or> String_includes xs n)"

definition isAbsoluteUrl_spec :: "string \<Rightarrow> bool" where
  "isAbsoluteUrl_spec u = String_includes u ''://''"

text \<open>
  A stand-in for the manifest parser in the examples: the content is a comma-separated list
  of segment URIs, or of child playlist URIs when it starts with \<^verbatim>\<open>#\<close>.
\<close>

fun splitOn :: "char \<Rightarrow> string \<Rightarrow> string list" where
  "splitOn c [] = [[]]"
| "splitOn c (x # xs) =
     (if x = c then [] # splitOn c xs
      else (case splitOn c xs of [] \<Rightarrow> [[x]] | w # ws \<Rightarrow> (x # w) # ws))"

definition parse_example :: "string \<Rightarrow> Manifest" where
  "parse_example content =
     (case content of
        [] \<Rightarrow> \<lparr>manifest_segments = [], manifest_playlists = None\<rparr>
      | x # rest \<Rightarrow>
          if x = CHR ''#''
          then \<lparr>manifest_segments = [],
                manifest_playlists = Some (filter (\<lambda>w. w \<noteq> []) (splitOn CHR '','' rest))\<rparr>
          else \<lparr>manifest_segments = filter (\<lambda>w. w \<noteq> []) (splitOn CHR '','' content),
                manifest_playlists = None\<rparr>)"

text \<open>A playlist with a relative and an absolute URI of each kind.\<close>

definition example_playlist :: Playlist where
  "example_playlist =
     \<lparr>url = ''/d/p'', baseUrl = ''/d/'',
      manifest = \<lparr>manifest_segments = [''s0'', ''h://x/s1''],
                  manifest_playlists = Some [''v'', ''h://x/w'']\<rparr>\<rparr>"

text \<open>
  A manager that knows a master playlist with two variants and the first variant with two
  segments, and has been asked for the first segment.
\<close>

definition example_requested :: ChunkManager where
  "example_requested =
     run parse_example isAbsoluteUrl_spec
       [ProcessHlsPlaylist ''/m'' ''#v1,v2'', ProcessHlsPlaylist ''/v1'' ''s0,s1'',
        LoadChunk ''/s0'' (Some 1) (Some 2) 1]
       new_ChunkManager"

text \<open>A media playlist that lists one URI twice, as byte ranges of one file do.\<close>

definition example_repeated :: Playlist where
  "example_repeated =
     \<lparr>url = ''/p'', baseUrl = ''/'',
      manifest = \<lparr>manifest_segments = [''a'', ''a'', ''b''], manifest_playlists = None\<rparr>\<rparr>"

text \<open>A master playlist and playlists with the urls of its variants and with another url.\<close>

definition example_master :: Playlist where
  "example_master =
     \<lparr>url = ''/m'', baseUrl = ''/'',
      manifest = \<lparr>manifest_segments = [], manifest_playlists = Some [''v1'', ''v2'']\<rparr>\<rparr>"

definition example_variant :: "string \<Rightarrow> Playlist" where
  "example_variant u =
     \<lparr>url = u, baseUrl = ''/'',
      manifest = \<lparr>manifest_segments = [''s0'', ''s1''], manifest_playlists = None\<rparr>\<rparr>"

text \<open>A manager that knows two master playlists, which list the same variants in two orders.\<close>

definition example_two_masters :: ChunkManager where
  "example_two_masters =
     run parse_example isAbsoluteUrl_spec
       [ProcessHlsPlaylist ''/v1'' ''s0,s1'', ProcessHlsPlaylist ''/m1'' ''#v1,v2'',
        ProcessHlsPlaylist ''/m2'' ''#v2,v1'']
       new_ChunkManager"

text \<open>A master playlist that lists the same variant twice.\<close>

definition example_master_twice :: Playlist where
  "example_master_twice =
     \<lparr>url = ''/m'', baseUrl = ''/'',
      manifest = \<lparr>manifest_segments = [], manifest_playlists = Some [''v'', ''v'']\<rparr>\<rparr>"

text \<open>
  A manager that knows two media playlists and has delivered the first segment of the first
  one, which is the play queue.
\<close>

definition example_two_playlists :: ChunkManager where
  "example_two_playlists =
     run parse_example isAbsoluteUrl_spec
       [ProcessHlsPlaylist ''/a'' ''a0,a1'', ProcessHlsPlaylist ''/b'' ''b0,b1'',
        LoadChunk ''/a0'' (Some 1) (Some 2) 1, FileLoaded ''/a0'' ''data'']
       new_ChunkManager"

text \<open>
  A manager whose only playlist was processed again after the first segment was delivered,
  with other segments, as a live playlist is.
\<close>

definition example_replaced :: ChunkManager where
  "example_replaced =
     run parse_example isAbsoluteUrl_spec
       [ProcessHlsPlaylist ''/a'' ''a0,a1'', LoadChunk ''/a0'' (Some 1) (Some 2) 1,
        FileLoaded ''/a0'' ''data'', ProcessHlsPlaylist ''/a'' ''a5,a6'']
       new_ChunkManager"

text \<open>
  The play queue after a chunk was reported as playing, in the words of the specification:
  the suffix that starts at the first occurrence of the url, or the queue itself when the url
  does not occur.
\<close>

definition trimQueue :: "string list \<Rightarrow> string \<Rightarrow> string list" where
  "trimQueue queue v = (if v \<in> set queue then dropWhile (\<lambda>x. x \<noteq> v) queue else queue)"

text \<open>
  Counting callbacks with a property \<open>P\<close>: the invocations made so far, the requests that
  still hold such a callback (the active chunk request and the pending timers), and the
  calls still to come that hand one over.
\<close>

definition holds :: "(callback \<Rightarrow> bool) \<Rightarrow> callback list \<Rightarrow> nat" where
  "holds P cs = (if list_ex P cs then 1 else 0)"

definition called :: "(callback \<Rightarrow> bool) \<Rightarrow> ChunkManager \<Rightarrow> nat" where
  "called P s = length (filter (\<lambda>x. P (fst x)) (invoked s))"

definition waiting :: "(callback \<Rightarrow> bool) \<Rightarrow> ChunkManager \<Rightarrow> nat" where
  "waiting P s =
     holds P (chunk_callbacks (chunk s)) +
     sum_list (map (\<lambda>t. holds P (task_callbacks (snd t))) (timers s))"

definition coming :: "(callback \<Rightarrow> bool) \<Rightarrow> action list \<Rightarrow> nat" where
  "coming P as = sum_list (map (\<lambda>a. holds P (action_callbacks a)) as)"

section \<open>Properties of the library functions and of class Playlist\<close>

lemma length_absoluteUrls [simp]:
  "length (absoluteUrls isAbsoluteUrl p) = length (manifest_segments (manifest p))"
  by (simp add: absoluteUrls_def)

lemma getChunkAbsoluteUrl_nth:
  "i < length (manifest_segments (manifest p)) \<Longrightarrow>
   getChunkAbsoluteUrl isAbsoluteUrl p (int i) = Inr (absoluteUrls isAbsoluteUrl p ! i)"
  by (simp add: getChunkAbsoluteUrl_def absoluteUrls_def resolveUri_def)

lemma indexOf_ge: "- 1 \<le> indexOf xs x"
  by (induction xs) (auto simp: Let_def)

lemma indexOf_nonneg_iff: "0 \<le> indexOf xs x \<longleftrightarrow> x \<in> set xs"
  by (induction xs) (auto simp: Let_def)

lemma indexOf_neg_iff: "indexOf xs x = - 1 \<longleftrightarrow> x \<notin> set xs"
  using indexOf_ge [of xs x] indexOf_nonneg_iff [of xs x] by auto

lemma indexOf_less: "indexOf xs x < int (length xs) \<or> xs = []"
  by (induction xs) (auto simp: Let_def)

lemma indexOf_nth: "x \<in> set xs \<Longrightarrow> xs ! nat (indexOf xs x) = x"
  by (induction xs) (auto simp: Let_def indexOf_nonneg_iff nat_add_distrib)

lemma indexOf_first: "j < nat (indexOf xs x) \<Longrightarrow> xs ! j \<noteq> x"
proof (induction xs arbitrary: j)
  case Nil
  then show ?case by simp
next
  case (Cons y ys)
  then show ?case
    by (cases j) (auto simp: Let_def nat_add_distrib split: if_splits)
qed

lemma indexOf_eqI:
  "i < length xs \<Longrightarrow> xs ! i = x \<Longrightarrow> (\<And>j. j < i \<Longrightarrow> xs ! j \<noteq> x) \<Longrightarrow> indexOf xs x = int i"
proof (induction xs arbitrary: i)
  case Nil
  then show ?case by simp
next
  case (Cons y ys)
  show ?case
  proof (cases i)
    case 0
    with Cons.prems show ?thesis by simp
  next
    case (Suc k)
    have "y \<noteq> x" using Cons.prems(3) [of 0] Suc by simp
    moreover have "indexOf ys x = int k"
    proof (rule Cons.IH)
      show "k < length ys" using Cons.prems(1) Suc by simp
      show "ys ! k = x" using Cons.prems(2) Suc by simp
      fix j assume "j < k"
      then show "ys ! j \<noteq> x" using Cons.prems(3) [of "Suc j"] Suc by simp
    qed
    ultimately show ?thesis using Suc by (simp add: Let_def)
  qed
qed

lemma getChunkIndex_loop_eq:
  "i \<le> length (manifest_segments (manifest p)) \<Longrightarrow>
   getChunkIndex_loop isAbsoluteUrl p u i =
     Inr (let r = indexOf (drop i (absoluteUrls isAbsoluteUrl p)) u in if 0 \<le> r then int i + r else - 1)"
proof (induction isAbsoluteUrl p u i rule: getChunkIndex_loop.induct)
  case (1 isAbsoluteUrl p u i)
  show ?case
  proof (cases "i < length (manifest_segments (manifest p))")
    case False
    then show ?thesis
      by (subst getChunkIndex_loop.simps) simp
  next
    case True
    then have d: "drop i (absoluteUrls isAbsoluteUrl p) =
        absoluteUrls isAbsoluteUrl p ! i # drop (Suc i) (absoluteUrls isAbsoluteUrl p)"
      by (simp add: Cons_nth_drop_Suc)
    show ?thesis
    proof (cases "u = absoluteUrls isAbsoluteUrl p ! i")
      case True
      with \<open>i < _\<close> show ?thesis
        by (subst getChunkIndex_loop.simps) (simp add: getChunkAbsoluteUrl_nth d)
    next
      case False
      have "getChunkIndex_loop isAbsoluteUrl p u (i + 1) =
         Inr (let r = indexOf (drop (i + 1) (absoluteUrls isAbsoluteUrl p)) u in if 0 \<le> r then int (i + 1) + r else - 1)"
        using "1.IH" [OF True getChunkAbsoluteUrl_nth [OF True]] False True by simp
      with False True show ?thesis
        by (subst getChunkIndex_loop.simps) (auto simp add: getChunkAbsoluteUrl_nth d Let_def)
    qed
  qed
qed

lemma getChunkIndex_eq:
  "getChunkIndex isAbsoluteUrl p u = Inr (indexOf (absoluteUrls isAbsoluteUrl p) u)"
  using getChunkIndex_loop_eq [of 0 p isAbsoluteUrl u] indexOf_ge [of "absoluteUrls isAbsoluteUrl p" u]
  by (auto simp: getChunkIndex_def Let_def)


lemma getChildPlaylistAbsoluteUrls_loop_eq:
  "getChildPlaylistAbsoluteUrls_loop isAbsoluteUrl base refs urls =
     urls @ map (resolveUri isAbsoluteUrl base) refs"
  by (induction refs arbitrary: urls) (simp_all add: resolveUri_def)

lemma getChildPlaylistAbsoluteUrls_eq:
  "getChildPlaylistAbsoluteUrls isAbsoluteUrl p =
     (case manifest_playlists (manifest p) of
        None \<Rightarrow> []
      | Some refs \<Rightarrow> map (resolveUri isAbsoluteUrl (baseUrl p)) refs)"
  by (simp add: getChildPlaylistAbsoluteUrls_def getChildPlaylistAbsoluteUrls_loop_eq split: option.splits)

section \<open>Properties of class ChunkManager\<close>

subsection \<open>The chunk locator\<close>

lemma getChunkLocation_loop_Cons:
  "getChunkLocation_loop isAbsoluteUrl (p # ps) u =
     (if u \<in> set (absoluteUrls isAbsoluteUrl p)
      then Inr (Some p, indexOf (absoluteUrls isAbsoluteUrl p) u)
      else getChunkLocation_loop isAbsoluteUrl ps u)"
  by (simp add: getChunkIndex_eq indexOf_nonneg_iff)

declare getChunkLocation_loop.simps(2) [simp del]

lemma getChunkLocation_loop_total:
  "\<exists>r. getChunkLocation_loop isAbsoluteUrl ps u = Inr r"
  by (induction ps) (simp_all add: getChunkLocation_loop_Cons)

lemma getChunkLocation_total:
  "\<exists>r. getChunkLocation isAbsoluteUrl s u = Inr r"
  using getChunkLocation_loop_total [of isAbsoluteUrl "map snd (playlists s)"]
  by (cases u) (auto simp: getChunkLocation_def)

lemma getChunkLocation_loop_Some:
  "getChunkLocation_loop isAbsoluteUrl ps u = Inr (Some p, i) \<Longrightarrow>
   p \<in> set ps \<and> u \<in> set (absoluteUrls isAbsoluteUrl p) \<and> i = indexOf (absoluteUrls isAbsoluteUrl p) u"
  by (induction ps) (auto simp: getChunkLocation_loop_Cons split: if_splits)

lemma getChunkLocation_loop_None:
  "getChunkLocation_loop isAbsoluteUrl ps u = Inr (None, i) \<Longrightarrow>
   i = - 1 \<and> (\<forall>p \<in> set ps. u \<notin> set (absoluteUrls isAbsoluteUrl p))"
  by (induction ps) (auto simp: getChunkLocation_loop_Cons split: if_splits)

lemma getChunkLocation_loop_first:
  "p \<in> set ps \<Longrightarrow> u \<in> set (absoluteUrls isAbsoluteUrl p) \<Longrightarrow>
   (\<And>q. q \<in> set ps \<Longrightarrow> q \<noteq> p \<Longrightarrow> u \<notin> set (absoluteUrls isAbsoluteUrl q)) \<Longrightarrow>
   getChunkLocation_loop isAbsoluteUrl ps u = Inr (Some p, indexOf (absoluteUrls isAbsoluteUrl p) u)"
proof (induction ps)
  case Nil
  then show ?case by simp
next
  case (Cons q ps)
  show ?case
  proof (cases "q = p")
    case True
    with Cons.prems show ?thesis by (simp add: getChunkLocation_loop_Cons)
  next
    case False
    with Cons.prems have "u \<notin> set (absoluteUrls isAbsoluteUrl q)" by simp
    moreover have "getChunkLocation_loop isAbsoluteUrl ps u =
        Inr (Some p, indexOf (absoluteUrls isAbsoluteUrl p) u)"
      using Cons False by auto
    ultimately show ?thesis by (simp add: getChunkLocation_loop_Cons)
  qed
qed

lemma getChunkLocation_Some:
  "getChunkLocation isAbsoluteUrl s (Some u) = Inr (Some p, i) \<Longrightarrow>
   u \<noteq> [] \<and> p \<in> snd ` set (playlists s) \<and> u \<in> set (absoluteUrls isAbsoluteUrl p) \<and>
   i = indexOf (absoluteUrls isAbsoluteUrl p) u"
  by (auto simp: getChunkLocation_def dest: getChunkLocation_loop_Some split: if_splits)

lemma getChunkLocation_Some_index:
  assumes "getChunkLocation isAbsoluteUrl s (Some u) = Inr (Some p, i)"
  shows "0 \<le> i" and "nat i < length (manifest_segments (manifest p))"
    and "absoluteUrls isAbsoluteUrl p ! nat i = u"
proof -
  from getChunkLocation_Some [OF assms]
  have m: "u \<in> set (absoluteUrls isAbsoluteUrl p)" and i: "i = indexOf (absoluteUrls isAbsoluteUrl p) u"
    by simp_all
  from m i show "0 \<le> i" by (simp add: indexOf_nonneg_iff)
  from m have "absoluteUrls isAbsoluteUrl p \<noteq> []" by auto
  with indexOf_less [of "absoluteUrls isAbsoluteUrl p" u] i \<open>0 \<le> i\<close>
  show "nat i < length (manifest_segments (manifest p))" by simp
  from m i show "absoluteUrls isAbsoluteUrl p ! nat i = u" by (simp add: indexOf_nth)
qed

subsection \<open>The registry, the batch and the swarm id\<close>

lemma Map_set_mem: "(k, v) \<in> set (Map_set k v m)"
  by (induction m) auto

lemma Map_set_subset: "set (Map_set k v m) \<subseteq> insert (k, v) (set m)"
  by (induction m) (auto split: if_splits)

lemma loadFiles_loop_eq:
  "n = length (manifest_segments (manifest p)) \<Longrightarrow> k = n - i \<Longrightarrow> i \<le> n \<Longrightarrow>
   loadFiles_loop isAbsoluteUrl p (int i) prio fs =
     Inr (fs @ map (\<lambda>j. \<lparr>fileUrl = absoluteUrls isAbsoluteUrl p ! j, priority = prio + int (j - i)\<rparr>) [i..<n])"
proof (induction k arbitrary: i prio fs)
  case 0
  then show ?case by (subst loadFiles_loop.simps) simp
next
  case (Suc k)
  then have lt: "i < length (manifest_segments (manifest p))" by simp
  have "loadFiles_loop isAbsoluteUrl p (int (Suc i)) (prio + 1)
          (fs @ [\<lparr>fileUrl = absoluteUrls isAbsoluteUrl p ! i, priority = prio\<rparr>]) =
        Inr ((fs @ [\<lparr>fileUrl = absoluteUrls isAbsoluteUrl p ! i, priority = prio\<rparr>]) @
          map (\<lambda>j. \<lparr>fileUrl = absoluteUrls isAbsoluteUrl p ! j, priority = (prio + 1) + int (j - Suc i)\<rparr>) [Suc i..<n])"
    using Suc.prems by (intro Suc.IH) simp_all
  moreover have "map (\<lambda>j. \<lparr>fileUrl = absoluteUrls isAbsoluteUrl p ! j, priority = (prio + 1) + int (j - Suc i)\<rparr>) [Suc i..<n]
      = map (\<lambda>j. \<lparr>fileUrl = absoluteUrls isAbsoluteUrl p ! j, priority = prio + int (j - i)\<rparr>) [Suc i..<n]"
    by (rule map_cong) (auto simp: Suc_diff_Suc)
  moreover have "[i..<n] = i # [Suc i..<n]"
    using lt Suc.prems by (simp add: upt_conv_Cons)
  ultimately show ?case
    using lt by (subst loadFiles_loop.simps) (simp add: getChunkAbsoluteUrl_nth add.commute)
qed

lemma loadFiles_loop_batch:
  "0 \<le> ci \<Longrightarrow> nat ci \<le> length (manifest_segments (manifest p)) \<Longrightarrow>
   loadFiles_loop isAbsoluteUrl p ci prio [] = Inr (batch isAbsoluteUrl p (nat ci) prio)"
  using loadFiles_loop_eq [of "length (manifest_segments (manifest p))" p _ "nat ci" isAbsoluteUrl prio "[]"]
  by (simp add: batch_def)

lemma getSwarmId_playlists:
  "playlists s = playlists s' \<Longrightarrow> getSwarmId isAbsoluteUrl s p = getSwarmId isAbsoluteUrl s' p"
  by (simp add: getSwarmId_def getMasterPlaylist_def)

lemma getChunkLocation_playlists:
  "playlists s = playlists s' \<Longrightarrow> getChunkLocation isAbsoluteUrl s u = getChunkLocation isAbsoluteUrl s' u"
  by (auto simp: getChunkLocation_def split: option.splits)

lemma loadFiles_eq:
  "0 \<le> ci \<Longrightarrow> nat ci \<le> length (manifest_segments (manifest p)) \<Longrightarrow>
   loadFiles isAbsoluteUrl p ci lu s =
     Inr (s\<lparr>loaderCalls := loaderCalls s @
            [\<lparr>files = batch isAbsoluteUrl p (nat ci) (priorityBase (playQueue s)),
              swarmId = getSwarmId isAbsoluteUrl s p, loadUrl = lu\<rparr>]\<rparr>)"
  by (simp add: loadFiles_def loadFiles_loop_batch priorityBase_def)

lemma getSwarmId_loop_eq:
  "i \<le> length urls \<Longrightarrow>
   getSwarmId_loop urls m u i =
     (let r = indexOf (drop i urls) u in
      if 0 \<le> r then Some (m @ ''+'' @ String_of_nat (i + nat r)) else None)"
proof (induction urls m u i rule: getSwarmId_loop.induct)
  case (1 urls m u i)
  show ?case
  proof (cases "i < length urls")
    case False
    then show ?thesis by (subst getSwarmId_loop.simps) simp
  next
    case True
    then have d: "drop i urls = urls ! i # drop (Suc i) urls"
      by (simp add: Cons_nth_drop_Suc)
    show ?thesis
    proof (cases "urls ! i = u")
      case True
      with \<open>i < length urls\<close> show ?thesis
        by (subst getSwarmId_loop.simps) (simp add: d)
    next
      case False
      with "1.IH" True have "getSwarmId_loop urls m u (i + 1) =
         (let r = indexOf (drop (i + 1) urls) u in
          if 0 \<le> r then Some (m @ ''+'' @ String_of_nat (i + 1 + nat r)) else None)"
        by simp
      with False True show ?thesis
        by (subst getSwarmId_loop.simps) (auto simp: d Let_def nat_add_distrib)
    qed
  qed
qed

lemma getSwarmId_loop_0:
  "getSwarmId_loop urls m u 0 =
     (if u \<in> set urls then Some (m @ ''+'' @ String_of_nat (nat (indexOf urls u))) else None)"
  using getSwarmId_loop_eq [of 0 urls m u] by (simp add: Let_def indexOf_nonneg_iff)

lemma getChunkLocation_loop_member:
  assumes "p \<in> set ps" and "u \<in> set (absoluteUrls isAbsoluteUrl p)"
  shows "\<exists>q. q \<in> set ps \<and> u \<in> set (absoluteUrls isAbsoluteUrl q) \<and>
           getChunkLocation_loop isAbsoluteUrl ps u =
             Inr (Some q, indexOf (absoluteUrls isAbsoluteUrl q) u)"
proof -
  obtain r i where r: "getChunkLocation_loop isAbsoluteUrl ps u = Inr (r, i)"
    using getChunkLocation_loop_total [of isAbsoluteUrl ps u] by (cases) auto
  show ?thesis
  proof (cases r)
    case None
    with r assms getChunkLocation_loop_None [of isAbsoluteUrl ps u i] show ?thesis by auto
  next
    case (Some q)
    with r getChunkLocation_loop_Some [of isAbsoluteUrl ps u q i] show ?thesis by auto
  qed
qed

lemma processHlsPlaylist_Inr:
  "processHlsPlaylist parse u content s = Inr s' \<Longrightarrow> new_Playlist u (parse content) = Inr p \<Longrightarrow>
   s' = s\<lparr>playlists := Map_set u p (playlists s)\<rparr>"
  by (simp add: processHlsPlaylist_def)

lemma absoluteUrls_nth_eq:
  "i < length (manifest_segments (manifest p)) \<Longrightarrow>
   getChunkAbsoluteUrl isAbsoluteUrl p (int i) = Inr a \<longleftrightarrow> absoluteUrls isAbsoluteUrl p ! i = a"
  by (simp add: getChunkAbsoluteUrl_nth)

lemma getMasterPlaylist_loop_None:
  "getMasterPlaylist_loop ps = None \<longleftrightarrow> (\<forall>p \<in> set ps. manifest_playlists (manifest p) = None)"
  by (induction ps) auto

lemma getMasterPlaylist_loop_Some:
  "getMasterPlaylist_loop ps = Some m \<Longrightarrow> m \<in> set ps \<and> manifest_playlists (manifest m) \<noteq> None"
  by (induction ps) (auto split: if_splits)

lemma getMasterPlaylist_loop_first:
  "getMasterPlaylist_loop ps = Some m \<Longrightarrow>
   \<exists>before after. ps = before @ m # after \<and>
     (\<forall>q \<in> set before. manifest_playlists (manifest q) = None)"
proof (induction ps)
  case Nil
  then show ?case by simp
next
  case (Cons p ps)
  show ?case
  proof (cases "manifest_playlists (manifest p) \<noteq> None")
    case True
    with Cons.prems have "p = m" by simp
    then have "p # ps = [] @ m # ps \<and> (\<forall>q \<in> set []. manifest_playlists (manifest q) = None)"
      by simp
    then show ?thesis by blast
  next
    case False
    with Cons.prems have "getMasterPlaylist_loop ps = Some m" by simp
    from Cons.IH [OF this] obtain before after where
      "ps = before @ m # after" "\<forall>q \<in> set before. manifest_playlists (manifest q) = None"
      by blast
    with False have "p # ps = (p # before) @ m # after \<and>
        (\<forall>q \<in> set (p # before). manifest_playlists (manifest q) = None)"
      by simp
    then show ?thesis by blast
  qed
qed

subsection \<open>Requests\<close>

lemma loadChunk_sequence_empty:
  "playQueue s = [] \<Longrightarrow> loadChunk_sequence isAbsoluteUrl i s = Inr s"
  by (simp add: loadChunk_sequence_def)

lemma loadChunk_sequence_eq:
  "playQueue s \<noteq> [] \<Longrightarrow>
   getChunkLocation isAbsoluteUrl s (Some (last (playQueue s))) = Inr (q, j) \<Longrightarrow>
   loadChunk_sequence isAbsoluteUrl i s =
     Inr (if q \<noteq> None \<and> j \<noteq> i - 1 then s\<lparr>playQueue := []\<rparr> else s)"
  by (simp add: loadChunk_sequence_def last_conv_nth)

lemma loadChunk_sequence_total:
  "\<exists>q. loadChunk_sequence isAbsoluteUrl i s = Inr (s\<lparr>playQueue := q\<rparr>) \<and> (q = [] \<or> q = playQueue s)"
proof -
  have same: "s\<lparr>playQueue := playQueue s\<rparr> = s" by simp
  show ?thesis
  proof (cases "playQueue s = []")
    case True
    have "loadChunk_sequence isAbsoluteUrl i s = Inr (s\<lparr>playQueue := playQueue s\<rparr>)"
      using loadChunk_sequence_empty [OF True, of isAbsoluteUrl i] by (simp only: same)
    then show ?thesis by blast
  next
    case False
    obtain q j where loc: "getChunkLocation isAbsoluteUrl s (Some (last (playQueue s))) = Inr (q, j)"
      using getChunkLocation_total [of isAbsoluteUrl s "Some (last (playQueue s))"] by auto
    note eq = loadChunk_sequence_eq [OF False loc, of i]
    show ?thesis
    proof (cases "q \<noteq> None \<and> j \<noteq> i - 1")
      case True
      with eq have "loadChunk_sequence isAbsoluteUrl i s = Inr (s\<lparr>playQueue := []\<rparr>)"
        by simp
      then show ?thesis by blast
    next
      case False
      with eq have "loadChunk_sequence isAbsoluteUrl i s = Inr s"
        by auto
      then have "loadChunk_sequence isAbsoluteUrl i s = Inr (s\<lparr>playQueue := playQueue s\<rparr>)"
        by (simp only: same)
      then show ?thesis by blast
    qed
  qed
qed

lemma loadChunk_located:
  assumes loc: "getChunkLocation isAbsoluteUrl s (Some u) = Inr (Some p, i)"
      and seq: "loadChunk_sequence isAbsoluteUrl i s = Inr (s\<lparr>playQueue := q\<rparr>)"
  shows "loadChunk isAbsoluteUrl u onS onE r s =
     Inr (s\<lparr>playQueue := q,
            chunk := Some \<lparr>chunkUrl = u, onSuccess = onS, onError = onE\<rparr>,
            loaderCalls := loaderCalls s @
              [\<lparr>files = batch isAbsoluteUrl p (nat i) (priorityBase q),
                swarmId = getSwarmId isAbsoluteUrl s p, loadUrl = Some u\<rparr>],
            prevLoadUrl := Some u\<rparr>)"
proof -
  note ix = getChunkLocation_Some_index [OF loc]
  have sw: "getSwarmId isAbsoluteUrl
      (s\<lparr>playQueue := q, chunk := Some \<lparr>chunkUrl = u, onSuccess = onS, onError = onE\<rparr>\<rparr>) p =
      getSwarmId isAbsoluteUrl s p"
    by (rule getSwarmId_playlists) simp
  show ?thesis
    using ix(1,2) by (simp add: loadChunk_def loc seq loadFiles_eq sw)
qed

lemma loadChunk_total:
  "\<exists>s'. loadChunk isAbsoluteUrl u onS onE r s = Inr s'"
proof -
  obtain l i where loc: "getChunkLocation isAbsoluteUrl s (Some u) = Inr (l, i)"
    using getChunkLocation_total [of isAbsoluteUrl s "Some u"] by auto
  show ?thesis
  proof (cases l)
    case None
    with loc show ?thesis by (simp add: loadChunk_def split: option.splits)
  next
    case (Some p)
    obtain q where "loadChunk_sequence isAbsoluteUrl i s = Inr (s\<lparr>playQueue := q\<rparr>)"
      using loadChunk_sequence_total [of isAbsoluteUrl i s] by blast
    from loadChunk_located [OF loc [unfolded Some] this, of onS onE r] show ?thesis by simp
  qed
qed

lemma Number_minus_exact:
  "0 < r \<Longrightarrow> r \<le> 2 ^ 53 \<Longrightarrow> Number_minus r 1 = r - 1"
  by (simp add: Number_minus_def roundDouble_def)

lemma loadChunk_not_located:
  assumes "getChunkLocation isAbsoluteUrl s (Some u) = Inr (None, i)"
  shows "loadChunk isAbsoluteUrl u onS onE r s =
     Inr (if 0 < r then s\<lparr>timers := timers s @ [(500, RetryLoadChunk u onS onE (Number_minus r 1))]\<rparr>
          else (case onE of
                  Some f \<Rightarrow> s\<lparr>timers := timers s @ [(0, CallOnError f message)]\<rparr>
                | None \<Rightarrow> s))"
  using assms by (simp add: loadChunk_def split: option.splits)

lemma batch_length:
  "length (batch isAbsoluteUrl p i base) = length (manifest_segments (manifest p)) - i"
  by (simp add: batch_def)

lemma batch_nth:
  "j < length (manifest_segments (manifest p)) - i \<Longrightarrow>
   batch isAbsoluteUrl p i base ! j =
     \<lparr>fileUrl = absoluteUrls isAbsoluteUrl p ! (i + j), priority = base + int j\<rparr>"
  by (simp add: batch_def)

lemma timerFires_last:
  "timerFires isAbsoluteUrl (length (timers s)) (s\<lparr>timers := timers s @ [(d, t)]\<rparr>) =
     runTask isAbsoluteUrl t s"
  by (simp add: timerFires_def)

lemma loadChunk_queue:
  assumes loc: "getChunkLocation isAbsoluteUrl s (Some u) = Inr (Some p, i)"
      and ne: "playQueue s \<noteq> []"
      and prev: "getChunkLocation isAbsoluteUrl s (Some (last (playQueue s))) = Inr (q, j)"
  shows "loadChunk isAbsoluteUrl u onS onE r s =
     Inr (s\<lparr>playQueue := (if q \<noteq> None \<and> j \<noteq> i - 1 then [] else playQueue s),
            chunk := Some \<lparr>chunkUrl = u, onSuccess = onS, onError = onE\<rparr>,
            loaderCalls := loaderCalls s @
              [\<lparr>files = batch isAbsoluteUrl p (nat i)
                         (priorityBase (if q \<noteq> None \<and> j \<noteq> i - 1 then [] else playQueue s)),
                swarmId = getSwarmId isAbsoluteUrl s p, loadUrl = Some u\<rparr>],
            prevLoadUrl := Some u\<rparr>)"
proof -
  have "loadChunk_sequence isAbsoluteUrl i s =
      Inr (s\<lparr>playQueue := (if q \<noteq> None \<and> j \<noteq> i - 1 then [] else playQueue s)\<rparr>)"
    using loadChunk_sequence_eq [OF ne prev, of i] by simp
  from loadChunk_located [OF loc this] show ?thesis .
qed

lemma drop_indexOf:
  "v \<in> set q \<Longrightarrow> drop (nat (indexOf q v)) q = dropWhile (\<lambda>x. x \<noteq> v) q"
proof (induction q)
  case Nil
  then show ?case by simp
next
  case (Cons y ys)
  show ?case
  proof (cases "y = v")
    case True
    then show ?thesis by simp
  next
    case False
    with Cons.prems have m: "v \<in> set ys" by simp
    then have "0 \<le> indexOf ys v" by (simp add: indexOf_nonneg_iff)
    then have "nat (indexOf ys v + 1) = Suc (nat (indexOf ys v))" by simp
    with False m Cons.IH show ?thesis by (simp add: Let_def indexOf_nonneg_iff)
  qed
qed

lemma setCurrentChunk_trim:
  "(if indexOf (playQueue s) v < 0 then s
    else s\<lparr>playQueue := drop (nat (indexOf (playQueue s) v)) (playQueue s)\<rparr>) =
   s\<lparr>playQueue := trimQueue (playQueue s) v\<rparr>"
proof (cases "v \<in> set (playQueue s)")
  case True
  then have "\<not> indexOf (playQueue s) v < 0"
    using indexOf_nonneg_iff [of "playQueue s" v] by simp
  with True show ?thesis by (simp add: trimQueue_def drop_indexOf)
next
  case False
  then have "indexOf (playQueue s) v < 0"
    using indexOf_nonneg_iff [of "playQueue s" v] by simp
  with False show ?thesis by (simp add: trimQueue_def)
qed

lemma getChunkLocation_falsy:
  "\<not> truthy w \<Longrightarrow> getChunkLocation isAbsoluteUrl s w = Inr (None, - 1)"
  by (cases w) (simp_all add: getChunkLocation_def)

lemma setCurrentChunk_eq:
  assumes "v \<noteq> []"
  shows "setCurrentChunk isAbsoluteUrl (Some v) s =
     (case getChunkLocation isAbsoluteUrl s (prevLoadUrl s) of
        Inl e \<Rightarrow> Inl e
      | Inr (None, i) \<Rightarrow> Inr (s\<lparr>playQueue := trimQueue (playQueue s) v\<rparr>)
      | Inr (Some p, i) \<Rightarrow>
          Inr (s\<lparr>playQueue := trimQueue (playQueue s) v,
                 loaderCalls := loaderCalls s @
                   [\<lparr>files = batch isAbsoluteUrl p (nat i) (priorityBase (trimQueue (playQueue s) v)),
                     swarmId = getSwarmId isAbsoluteUrl s p, loadUrl = None\<rparr>]\<rparr>))"
proof -
  let ?s1 = "s\<lparr>playQueue := trimQueue (playQueue s) v\<rparr>"
  have loc1: "getChunkLocation isAbsoluteUrl ?s1 (prevLoadUrl s) = getChunkLocation isAbsoluteUrl s (prevLoadUrl s)"
    by (rule getChunkLocation_playlists) simp
  have sw: "getSwarmId isAbsoluteUrl ?s1 p = getSwarmId isAbsoluteUrl s p" for p
    by (rule getSwarmId_playlists) simp
  have unfold: "setCurrentChunk isAbsoluteUrl (Some v) s =
      (if truthy (prevLoadUrl s) then
         (case getChunkLocation isAbsoluteUrl s (prevLoadUrl s) of
            Inl e \<Rightarrow> Inl e
          | Inr (loadingPlaylist, loadingChunkIndex) \<Rightarrow>
              (case loadingPlaylist of
                 Some lp \<Rightarrow> loadFiles isAbsoluteUrl lp loadingChunkIndex None ?s1
               | None \<Rightarrow> Inr ?s1))
       else Inr ?s1)"
    unfolding setCurrentChunk_def Let_def setCurrentChunk_trim
    using assms by (simp add: loc1)
  obtain r i where r: "getChunkLocation isAbsoluteUrl s (prevLoadUrl s) = Inr (r, i)"
    using getChunkLocation_total [of isAbsoluteUrl s "prevLoadUrl s"] by auto
  show ?thesis
  proof (cases r)
    case None
    with r unfold show ?thesis by simp
  next
    case (Some p)
    with r have t: "truthy (prevLoadUrl s)"
      using getChunkLocation_falsy [of "prevLoadUrl s" isAbsoluteUrl s] by auto
    then obtain w where w: "prevLoadUrl s = Some w" by (cases "prevLoadUrl s") auto
    from r Some w have "getChunkLocation isAbsoluteUrl s (Some w) = Inr (Some p, i)" by simp
    note ix = getChunkLocation_Some_index [OF this]
    from ix(1,2) have "loadFiles isAbsoluteUrl p i None ?s1 =
        Inr (?s1\<lparr>loaderCalls := loaderCalls ?s1 @
            [\<lparr>files = batch isAbsoluteUrl p (nat i) (priorityBase (playQueue ?s1)),
              swarmId = getSwarmId isAbsoluteUrl ?s1 p, loadUrl = None\<rparr>]\<rparr>)"
      by (intro loadFiles_eq) simp_all
    with r Some t unfold show ?thesis by (simp add: sw)
  qed
qed

subsection \<open>Counting callbacks along a run\<close>

text \<open>
  No step makes the number of invocations and of holders of a callback with property \<open>P\<close>
  larger than it was, the callbacks handed over by the step counted in.
\<close>

lemma holds_Nil [simp]: "holds P [] = 0"
  by (simp add: holds_def)

lemma holds_le_1: "holds P cs \<le> 1"
  by (simp add: holds_def)

lemma coming_Nil [simp]: "coming P [] = 0"
  by (simp add: coming_def)

lemma coming_Cons [simp]: "coming P (a # as) = holds P (action_callbacks a) + coming P as"
  by (simp add: coming_def)

lemma coming_append [simp]: "coming P (as @ bs) = coming P as + coming P bs"
  by (simp add: coming_def)

lemma holds_error_le: "holds P [x] \<le> holds P (callbacks onS (Some x))"
  by (cases onS) (simp_all add: holds_def)

lemma waiting_remove_timer:
  assumes "k < length (timers s)"
  shows "waiting P s =
     waiting P (s\<lparr>timers := take k (timers s) @ drop (Suc k) (timers s)\<rparr>) +
     holds P (task_callbacks (snd (timers s ! k)))"
proof -
  let ?h = "\<lambda>t. holds P (task_callbacks (snd t))"
  have e: "take k (timers s) @ timers s ! k # drop (Suc k) (timers s) = timers s"
    using assms by (rule id_take_nth_drop [symmetric])
  have "sum_list (map ?h (take k (timers s) @ timers s ! k # drop (Suc k) (timers s))) =
      sum_list (map ?h (take k (timers s) @ drop (Suc k) (timers s))) + ?h (timers s ! k)"
    by simp
  then have "sum_list (map ?h (timers s)) =
      sum_list (map ?h (take k (timers s) @ drop (Suc k) (timers s))) + ?h (timers s ! k)"
    by (simp only: e)
  then show ?thesis by (simp add: waiting_def)
qed

lemma loadChunk_count:
  "called P (keep s (loadChunk isAbsoluteUrl u onS onE r s)) +
   waiting P (keep s (loadChunk isAbsoluteUrl u onS onE r s)) \<le>
   called P s + waiting P s + holds P (callbacks onS onE)"
proof -
  obtain l i where loc: "getChunkLocation isAbsoluteUrl s (Some u) = Inr (l, i)"
    using getChunkLocation_total [of isAbsoluteUrl s "Some u"] by auto
  show ?thesis
  proof (cases l)
    case None
    note nl = loadChunk_not_located [OF loc [unfolded None], of onS onE r]
    show ?thesis
    proof (cases "0 < r")
      case True
      with nl show ?thesis by (simp add: keep_def called_def waiting_def)
    next
      case False
      show ?thesis
      proof (cases onE)
        case None
        with nl False show ?thesis by (simp add: keep_def)
      next
        case (Some x)
        with nl False holds_error_le [of P x onS] show ?thesis
          by (simp add: keep_def called_def waiting_def)
      qed
    qed
  next
    case (Some p)
    obtain q where seq: "loadChunk_sequence isAbsoluteUrl i s = Inr (s\<lparr>playQueue := q\<rparr>)"
      using loadChunk_sequence_total [of isAbsoluteUrl i s] by blast
    from loadChunk_located [OF loc [unfolded Some] seq, of onS onE r]
    show ?thesis
      by (simp add: keep_def called_def waiting_def chunk_callbacks_def)
  qed
qed

lemma setCurrentChunk_fields:
  "\<exists>s'. setCurrentChunk isAbsoluteUrl u s = Inr s' \<and>
        invoked s' = invoked s \<and> chunk s' = chunk s \<and> timers s' = timers s"
proof (cases "truthy u")
  case False
  then show ?thesis by (cases u) (simp_all add: setCurrentChunk_def)
next
  case True
  then obtain v where v: "u = Some v" "v \<noteq> []" by (cases u) auto
  obtain l i where "getChunkLocation isAbsoluteUrl s (prevLoadUrl s) = Inr (l, i)"
    using getChunkLocation_total [of isAbsoluteUrl s "prevLoadUrl s"] by auto
  with setCurrentChunk_eq [OF v(2), of isAbsoluteUrl s] v(1) show ?thesis
    by (cases l) simp_all
qed

lemma step_count:
  "called P (step parse isAbsoluteUrl a s) + waiting P (step parse isAbsoluteUrl a s) \<le>
   called P s + waiting P s + holds P (action_callbacks a)"
proof (cases a)
  case (ProcessHlsPlaylist u content)
  then show ?thesis
    by (simp add: processHlsPlaylist_def keep_def called_def waiting_def split: sum.splits)
next
  case (LoadHlsPlaylist u fetched)
  then show ?thesis
    by (simp add: loadHlsPlaylist_def processHlsPlaylist_def called_def waiting_def split: sum.splits)
next
  case (LoadChunk u onS onE r)
  with loadChunk_count [of P s isAbsoluteUrl u onS onE r] show ?thesis by simp
next
  case (SetCurrentChunk u)
  with setCurrentChunk_fields [of isAbsoluteUrl u s] show ?thesis
    by (auto simp: keep_def called_def waiting_def)
next
  case (AbortChunk u)
  then show ?thesis
    by (simp add: abortChunk_def called_def waiting_def chunk_callbacks_def split: option.splits)
next
  case (FileLoaded u d)
  then show ?thesis
    by (simp add: onFileLoaded_def called_def waiting_def chunk_callbacks_def holds_def Let_def
        split: option.splits)
next
  case (FileError u e)
  then show ?thesis
    by (simp add: onFileError_def called_def waiting_def chunk_callbacks_def holds_def Let_def
        split: option.splits)
next
  case (FileAbort u)
  then show ?thesis
    by (simp add: onFileAbort_def called_def waiting_def chunk_callbacks_def holds_def Let_def
        split: option.splits)
next
  case (TimerFires k)
  show ?thesis
  proof (cases "k < length (timers s)")
    case False
    with TimerFires show ?thesis by (simp add: timerFires_def keep_def)
  next
    case True
    let ?s0 = "s\<lparr>timers := take k (timers s) @ drop (Suc k) (timers s)\<rparr>"
    note w = waiting_remove_timer [OF True, of P]
    have c: "called P ?s0 = called P s" by (simp add: called_def)
    have st: "step parse isAbsoluteUrl a s = keep ?s0 (runTask isAbsoluteUrl (snd (timers s ! k)) ?s0)"
      using TimerFires True by (simp add: timerFires_def)
    show ?thesis
    proof (cases "snd (timers s ! k)")
      case (RetryLoadChunk u onS onE r)
      with st loadChunk_count [of P ?s0 isAbsoluteUrl u onS onE r] w c TimerFires show ?thesis
        by (simp add: runTask_def)
    next
      case (CallOnError f msg)
      with st w c TimerFires show ?thesis
        by (simp add: runTask_def keep_def called_def waiting_def holds_def)
    qed
  qed
qed

lemma run_count:
  "called P (run parse isAbsoluteUrl as s) + waiting P (run parse isAbsoluteUrl as s) \<le>
   called P s + waiting P s + coming P as"
proof (induction as arbitrary: s)
  case Nil
  then show ?case by simp
next
  case (Cons a as)
  have "called P (run parse isAbsoluteUrl (a # as) s) + waiting P (run parse isAbsoluteUrl (a # as) s) \<le>
      called P (step parse isAbsoluteUrl a s) + waiting P (step parse isAbsoluteUrl a s) + coming P as"
    using Cons.IH [of "step parse isAbsoluteUrl a s"] by simp
  also have "\<dots> \<le> called P s + waiting P s + holds P (action_callbacks a) + coming P as"
    using step_count [of P parse isAbsoluteUrl a s] by simp
  finally show ?case by simp
qed

lemma run_called:
  "called P (run parse isAbsoluteUrl as new_ChunkManager) \<le> coming P as"
proof -
  have "called P new_ChunkManager = 0" "waiting P new_ChunkManager = 0"
    by (simp_all add: called_def waiting_def new_ChunkManager_def chunk_callbacks_def)
  with run_count [of P parse isAbsoluteUrl as new_ChunkManager] show ?thesis by simp
qed

lemma coming_zero:
  "\<forall>x \<in> set (concat (map action_callbacks as)). \<not> P x \<Longrightarrow> coming P as = 0"
  by (induction as) (auto simp: holds_def list_ex_iff)

lemma coming_distinct:
  assumes "distinct (concat (map action_callbacks as))"
      and "\<And>a x y. a \<in> set as \<Longrightarrow> x \<in> set (action_callbacks a) \<Longrightarrow> P x \<Longrightarrow> P y \<Longrightarrow>
             y \<in> set (concat (map action_callbacks as)) \<Longrightarrow> y \<in> set (action_callbacks a)"
  shows "coming P as \<le> 1"
  using assms
proof (induction as)
  case Nil
  then show ?case by simp
next
  case (Cons a as)
  have d: "distinct (concat (map action_callbacks as))"
    and dis: "set (action_callbacks a) \<inter> set (concat (map action_callbacks as)) = {}"
    using Cons.prems(1) by auto
  show ?case
  proof (cases "list_ex P (action_callbacks a)")
    case True
    then obtain x where x: "x \<in> set (action_callbacks a)" "P x" by (auto simp: list_ex_iff)
    have "\<forall>y \<in> set (concat (map action_callbacks as)). \<not> P y"
    proof
      fix y assume y: "y \<in> set (concat (map action_callbacks as))"
      show "\<not> P y"
      proof
        assume "P y"
        with Cons.prems(2) [of a x y] x y have "y \<in> set (action_callbacks a)" by auto
        with y dis show False by auto
      qed
    qed
    then have "coming P as = 0" by (rule coming_zero)
    with holds_le_1 [of P "action_callbacks a"] show ?thesis by simp
  next
    case False
    have "coming P as \<le> 1"
    proof (rule Cons.IH [OF d])
      fix b x y
      assume b: "b \<in> set as" "x \<in> set (action_callbacks b)" "P x" "P y"
        "y \<in> set (concat (map action_callbacks as))"
      with Cons.prems(2) [of b x y] show "y \<in> set (action_callbacks b)" by auto
    qed
    moreover from False have "holds P (action_callbacks a) = 0" by (simp add: holds_def)
    ultimately show ?thesis by simp
  qed
qed

lemma filter_le_1_distinct:
  "(\<And>c. length (filter (\<lambda>x. f x = c) xs) \<le> 1) \<Longrightarrow> distinct (map f xs)"
proof (induction xs)
  case Nil
  then show ?case by simp
next
  case (Cons x xs)
  have "f x \<notin> f ` set xs"
  proof
    assume "f x \<in> f ` set xs"
    then have "filter (\<lambda>y. f y = f x) xs \<noteq> []"
      by (auto simp: filter_empty_conv)
    then have "0 < length (filter (\<lambda>y. f y = f x) xs)" by simp
    with Cons.prems [of "f x"] show False by simp
  qed
  moreover have "distinct (map f xs)"
  proof (rule Cons.IH)
    fix c
    show "length (filter (\<lambda>x. f x = c) xs) \<le> 1"
      using Cons.prems [of c] by (simp split: if_splits)
  qed
  ultimately show ?case by simp
qed

lemma filter_two:
  assumes "x \<in> set xs" "y \<in> set xs" "f x \<noteq> f y" "P (f x)" "P (f y)"
  shows "2 \<le> length (filter (\<lambda>z. P (f z)) xs)"
proof -
  have "x \<in> set (filter (\<lambda>z. P (f z)) xs)" "y \<in> set (filter (\<lambda>z. P (f z)) xs)" "x \<noteq> y"
    using assms by auto
  then have "{x, y} \<subseteq> set (filter (\<lambda>z. P (f z)) xs)" "card {x, y} = 2"
    by auto
  then have "2 \<le> card (set (filter (\<lambda>z. P (f z)) xs))"
    by (metis List.finite_set card_mono)
  also have "\<dots> \<le> length (filter (\<lambda>z. P (f z)) xs)"
    by (rule card_length)
  finally show ?thesis .
qed

lemma run_invoked_distinct:
  assumes "distinct (concat (map action_callbacks as))"
  shows "distinct (map fst (invoked (run parse isAbsoluteUrl as new_ChunkManager)))"
proof (rule filter_le_1_distinct)
  fix c
  have "coming (\<lambda>x. x = c) as \<le> 1"
    by (rule coming_distinct [OF assms]) simp
  with run_called [of "\<lambda>x. x = c" parse isAbsoluteUrl as]
  show "length (filter (\<lambda>x. fst x = c) (invoked (run parse isAbsoluteUrl as new_ChunkManager))) \<le> 1"
    by (simp add: called_def)
qed

lemma run_invoked_exclusive:
  assumes d: "distinct (concat (map action_callbacks as))"
      and a: "LoadChunk u (Some f) (Some g) r \<in> set as"
  shows "\<not> (f \<in> fst ` set (invoked (run parse isAbsoluteUrl as new_ChunkManager)) \<and>
            g \<in> fst ` set (invoked (run parse isAbsoluteUrl as new_ChunkManager)))"
proof
  let ?inv = "invoked (run parse isAbsoluteUrl as new_ChunkManager)"
  let ?P = "\<lambda>x. x = f \<or> x = g"
  assume "f \<in> fst ` set ?inv \<and> g \<in> fst ` set ?inv"
  then obtain x y where xy: "x \<in> set ?inv" "fst x = f" "y \<in> set ?inv" "fst y = g" by auto
  obtain pre post where split: "as = pre @ LoadChunk u (Some f) (Some g) r # post"
    using a by (auto simp: in_set_conv_decomp)
  with d have fg: "f \<noteq> g"
    and pre: "f \<notin> set (concat (map action_callbacks pre))" "g \<notin> set (concat (map action_callbacks pre))"
    and post: "f \<notin> set (concat (map action_callbacks post))" "g \<notin> set (concat (map action_callbacks post))"
    by auto
  have "coming ?P pre = 0" "coming ?P post = 0"
    using pre post by (auto intro!: coming_zero)
  then have "coming ?P as \<le> 1"
    using split holds_le_1 [of ?P "action_callbacks (LoadChunk u (Some f) (Some g) r)"] by simp
  with run_called [of ?P parse isAbsoluteUrl as] have "called ?P (run parse isAbsoluteUrl as new_ChunkManager) \<le> 1"
    by simp
  moreover have "2 \<le> length (filter (\<lambda>z. ?P (fst z)) ?inv)"
    using xy fg by (intro filter_two [of x _ y]) auto
  ultimately show False by (simp add: called_def)
qed

section \<open>The claims\<close>

text \<open>
  C1 (amended). Let the calls of \<^verbatim>\<open>loadChunk\<close> hand over callbacks that are all different,
  that return normally and that do not call the manager. Whatever calls, loader events and
  timers follow one another from the construction of the manager on, no callback is invoked
  more than once, and of the \<^verbatim>\<open>onSuccess\<close> and the \<^verbatim>\<open>onError\<close> of one call at most one is
  invoked.
  While a request is the active chunk request, a \<^verbatim>\<open>loaded\<close> event for its url invokes its
  \<^verbatim>\<open>onSuccess\<close> with the data, an \<^verbatim>\<open>error\<close> or \<^verbatim>\<open>aborted\<close> event for its url invokes its
  \<^verbatim>\<open>onError\<close>, nothing else is invoked, and the request is no longer active afterwards.
\<close>

theorem callbacks_at_most_once:
  assumes "distinct (concat (map action_callbacks as))"
  shows "distinct (map fst (invoked (run parse isAbsoluteUrl as new_ChunkManager))) \<and>
         (LoadChunk u (Some f) (Some g) r \<in> set as \<longrightarrow>
            \<not> (f \<in> fst ` set (invoked (run parse isAbsoluteUrl as new_ChunkManager)) \<and>
               g \<in> fst ` set (invoked (run parse isAbsoluteUrl as new_ChunkManager)))) \<and>
         (chunk s = Some \<lparr>chunkUrl = v, onSuccess = Some f', onError = Some g'\<rparr> \<longrightarrow>
            invoked (onFileLoaded (v, d) s) = invoked s @ [(f', d)] \<and>
            invoked (onFileError v e s) = invoked s @ [(g', e)] \<and>
            invoked (onFileAbort v s) = invoked s @ [(g', ''Loading aborted'')] \<and>
            chunk (onFileLoaded (v, d) s) = None \<and>
            chunk (onFileError v e s) = None \<and>
            chunk (onFileAbort v s) = None)"
proof -
  have "chunk s = Some \<lparr>chunkUrl = v, onSuccess = Some f', onError = Some g'\<rparr> \<longrightarrow>
            invoked (onFileLoaded (v, d) s) = invoked s @ [(f', d)] \<and>
            invoked (onFileError v e s) = invoked s @ [(g', e)] \<and>
            invoked (onFileAbort v s) = invoked s @ [(g', ''Loading aborted'')] \<and>
            chunk (onFileLoaded (v, d) s) = None \<and>
            chunk (onFileError v e s) = None \<and>
            chunk (onFileAbort v s) = None"
    by (simp add: onFileLoaded_def onFileError_def onFileAbort_def)
  with run_invoked_distinct [OF assms, of parse isAbsoluteUrl]
    run_invoked_exclusive [OF assms, of u f g r parse isAbsoluteUrl]
  show ?thesis by blast
qed

theorem callbacks_at_most_once_witness:
  "distinct (concat (map action_callbacks
     [ProcessHlsPlaylist ''/v1'' ''s0,s1'', LoadChunk ''/s0'' (Some 1) (Some 2) 1,
      FileLoaded ''/s0'' ''data'', FileLoaded ''/s0'' ''data'', FileError ''/s0'' ''e'',
      LoadChunk ''/s1'' (Some 3) (Some 4) 1, FileAbort ''/s1'', FileLoaded ''/s1'' ''data''])) \<and>
   invoked (run parse_example isAbsoluteUrl_spec
     [ProcessHlsPlaylist ''/v1'' ''s0,s1'', LoadChunk ''/s0'' (Some 1) (Some 2) 1,
      FileLoaded ''/s0'' ''data'', FileLoaded ''/s0'' ''data'', FileError ''/s0'' ''e'',
      LoadChunk ''/s1'' (Some 3) (Some 4) 1, FileAbort ''/s1'', FileLoaded ''/s1'' ''data'']
     new_ChunkManager) = [(1, ''data''), (4, ''Loading aborted'')] \<and>
   distinct (map fst (invoked (run parse_example isAbsoluteUrl_spec
     [ProcessHlsPlaylist ''/v1'' ''s0,s1'', LoadChunk ''/s0'' (Some 1) (Some 2) 1,
      FileLoaded ''/s0'' ''data'', FileLoaded ''/s0'' ''data'', FileError ''/s0'' ''e'',
      LoadChunk ''/s1'' (Some 3) (Some 4) 1, FileAbort ''/s1'', FileLoaded ''/s1'' ''data'']
     new_ChunkManager))) \<and>
   \<not> (1 \<in> fst ` set (invoked (run parse_example isAbsoluteUrl_spec
     [ProcessHlsPlaylist ''/v1'' ''s0,s1'', LoadChunk ''/s0'' (Some 1) (Some 2) 1,
      FileLoaded ''/s0'' ''data'', FileLoaded ''/s0'' ''data'', FileError ''/s0'' ''e'',
      LoadChunk ''/s1'' (Some 3) (Some 4) 1, FileAbort ''/s1'', FileLoaded ''/s1'' ''data'']
     new_ChunkManager)) \<and>
      2 \<in> fst ` set (invoked (run parse_example isAbsoluteUrl_spec
     [ProcessHlsPlaylist ''/v1'' ''s0,s1'', LoadChunk ''/s0'' (Some 1) (Some 2) 1,
      FileLoaded ''/s0'' ''data'', FileLoaded ''/s0'' ''data'', FileError ''/s0'' ''e'',
      LoadChunk ''/s1'' (Some 3) (Some 4) 1, FileAbort ''/s1'', FileLoaded ''/s1'' ''data'']
     new_ChunkManager))) \<and>
   chunk example_requested = Some \<lparr>chunkUrl = ''/s0'', onSuccess = Some 1, onError = Some 2\<rparr> \<and>
   invoked (onFileLoaded (''/s0'', ''data'') example_requested) = [(1, ''data'')] \<and>
   invoked (onFileError ''/s0'' ''e'' example_requested) = [(2, ''e'')] \<and>
   invoked (onFileAbort ''/s0'' example_requested) = [(2, ''Loading aborted'')]"
proof -
  let ?as = "[ProcessHlsPlaylist ''/v1'' ''s0,s1'', LoadChunk ''/s0'' (Some 1) (Some 2) 1,
      FileLoaded ''/s0'' ''data'', FileLoaded ''/s0'' ''data'', FileError ''/s0'' ''e'',
      LoadChunk ''/s1'' (Some 3) (Some 4) 1, FileAbort ''/s1'', FileLoaded ''/s1'' ''data'']"
  have d: "distinct (concat (map action_callbacks ?as))"
    by simp
  have m: "LoadChunk ''/s0'' (Some 1) (Some 2) 1 \<in> set ?as"
    by simp
  have i: "invoked (run parse_example isAbsoluteUrl_spec ?as new_ChunkManager) =
      [(1, ''data''), (4, ''Loading aborted'')]"
    by code_simp
  have c: "chunk example_requested = Some \<lparr>chunkUrl = ''/s0'', onSuccess = Some 1, onError = Some 2\<rparr>"
    unfolding example_requested_def by code_simp
  have e: "invoked example_requested = []"
    unfolding example_requested_def by code_simp
  note t = callbacks_at_most_once [OF d, of parse_example isAbsoluteUrl_spec "''/s0''" 1 2 1
      example_requested "''/s0''" 1 2 "''data''" "''e''"]
  from t have a1: "distinct (map fst (invoked (run parse_example isAbsoluteUrl_spec ?as new_ChunkManager)))"
    by blast
  from t m have a2: "\<not> (1 \<in> fst ` set (invoked (run parse_example isAbsoluteUrl_spec ?as new_ChunkManager)) \<and>
      2 \<in> fst ` set (invoked (run parse_example isAbsoluteUrl_spec ?as new_ChunkManager)))"
    by blast
  from t c have "invoked (onFileLoaded (''/s0'', ''data'') example_requested) = invoked example_requested @ [(1, ''data'')]"
    and "invoked (onFileError ''/s0'' ''e'' example_requested) = invoked example_requested @ [(2, ''e'')]"
    and "invoked (onFileAbort ''/s0'' example_requested) = invoked example_requested @ [(2, ''Loading aborted'')]"
    by blast+
  then have a3: "invoked (onFileLoaded (''/s0'', ''data'') example_requested) = [(1, ''data'')]"
    and a4: "invoked (onFileError ''/s0'' ''e'' example_requested) = [(2, ''e'')]"
    and a5: "invoked (onFileAbort ''/s0'' example_requested) = [(2, ''Loading aborted'')]"
    by (simp_all only: e append_Nil)
  from d i a1 a2 c a3 a4 a5 show ?thesis by blast
qed

text \<open>
  The claim as stated fails for a request that is aborted: neither of its callbacks is ever
  invoked, whatever the loader reports afterwards, and nothing is left pending. It fails
  as well for a request that a later request replaces.
\<close>

theorem callbacks_at_most_once_counterexample:
  "chunk example_requested = Some \<lparr>chunkUrl = ''/s0'', onSuccess = Some 1, onError = Some 2\<rparr> \<and>
   run parse_example isAbsoluteUrl_spec
     [AbortChunk ''/s0'', FileLoaded ''/s0'' ''data'', FileError ''/s0'' ''e'', FileAbort ''/s0'']
     example_requested = example_requested\<lparr>chunk := None\<rparr> \<and>
   invoked (example_requested\<lparr>chunk := None\<rparr>) = [] \<and>
   timers (example_requested\<lparr>chunk := None\<rparr>) = [] \<and>
   invoked (run parse_example isAbsoluteUrl_spec
     [LoadChunk ''/s1'' (Some 3) (Some 4) 1, FileLoaded ''/s0'' ''data'', FileLoaded ''/s1'' ''data'',
      FileError ''/s0'' ''e'', FileAbort ''/s0'']
     example_requested) = [(3, ''data'')] \<and>
   chunk (run parse_example isAbsoluteUrl_spec
     [LoadChunk ''/s1'' (Some 3) (Some 4) 1, FileLoaded ''/s0'' ''data'', FileLoaded ''/s1'' ''data'',
      FileError ''/s0'' ''e'', FileAbort ''/s0'']
     example_requested) = None \<and>
   timers (run parse_example isAbsoluteUrl_spec
     [LoadChunk ''/s1'' (Some 3) (Some 4) 1, FileLoaded ''/s0'' ''data'', FileLoaded ''/s1'' ''data'',
      FileError ''/s0'' ''e'', FileAbort ''/s0'']
     example_requested) = []"
  unfolding example_requested_def by code_simp

text \<open>
  C2 (amended). On a \<^verbatim>\<open>loadChunk\<close> that locates its url at index \<open>i\<close> while the play queue
  is not empty: if the last element of the play queue locates, in whichever playlist, at an
  index other than \<open>i - 1\<close>, the play queue is emptied and the priorities of the submitted
  batch start at 0; if it locates at index \<open>i - 1\<close>, in the same playlist or in another one,
  or if it does not locate, the play queue is left as it is.
\<close>

theorem loadChunk_play_queue:
  assumes "getChunkLocation isAbsoluteUrl s (Some u) = Inr (Some p, i)"
      and "playQueue s \<noteq> []"
      and "getChunkLocation isAbsoluteUrl s (Some (last (playQueue s))) = Inr (q, j)"
  shows "\<exists>s'. loadChunk isAbsoluteUrl u onS onE r s = Inr s' \<and>
           (q \<noteq> None \<and> j \<noteq> i - 1 \<longrightarrow>
              playQueue s' = [] \<and>
              loaderCalls s' = loaderCalls s @
                [\<lparr>files = batch isAbsoluteUrl p (nat i) 0,
                  swarmId = getSwarmId isAbsoluteUrl s p, loadUrl = Some u\<rparr>]) \<and>
           (q \<noteq> None \<and> j = i - 1 \<longrightarrow> playQueue s' = playQueue s) \<and>
           (q = None \<longrightarrow> playQueue s' = playQueue s)"
  using loadChunk_queue [OF assms, of onS onE r] by (simp add: priorityBase_def)

theorem loadChunk_play_queue_witness:
  "getChunkLocation isAbsoluteUrl_spec example_two_playlists (Some (last (playQueue example_two_playlists))) =
     Inr (Some (example_variant ''/a''\<lparr>manifest := \<lparr>manifest_segments = [''a0'', ''a1''], manifest_playlists = None\<rparr>\<rparr>), 0) \<and>
   playQueue example_two_playlists = [''/a0''] \<and>
   snd (projr (getChunkLocation isAbsoluteUrl_spec example_two_playlists (Some ''/a1''))) = 1 \<and>
   playQueue (projr (loadChunk isAbsoluteUrl_spec ''/a1'' (Some 3) (Some 4) 1 example_two_playlists)) = [''/a0''] \<and>
   snd (projr (getChunkLocation isAbsoluteUrl_spec example_two_playlists (Some ''/b0''))) = 0 \<and>
   playQueue (projr (loadChunk isAbsoluteUrl_spec ''/b0'' (Some 3) (Some 4) 1 example_two_playlists)) = [] \<and>
   map priority (files (last (loaderCalls
     (projr (loadChunk isAbsoluteUrl_spec ''/b0'' (Some 3) (Some 4) 1 example_two_playlists))))) = [0, 1] \<and>
   getChunkLocation isAbsoluteUrl_spec example_replaced (Some (last (playQueue example_replaced))) =
     Inr (None, - 1) \<and>
   playQueue (projr (loadChunk isAbsoluteUrl_spec ''/a6'' (Some 3) (Some 4) 1 example_replaced)) = [''/a0'']"
proof -
  let ?a = "example_variant ''/a''\<lparr>manifest := \<lparr>manifest_segments = [''a0'', ''a1''], manifest_playlists = None\<rparr>\<rparr>"
  let ?b = "example_variant ''/b''\<lparr>manifest := \<lparr>manifest_segments = [''b0'', ''b1''], manifest_playlists = None\<rparr>\<rparr>"
  let ?c = "example_variant ''/a''\<lparr>manifest := \<lparr>manifest_segments = [''a5'', ''a6''], manifest_playlists = None\<rparr>\<rparr>"
  have q: "playQueue example_two_playlists = [''/a0'']"
    unfolding example_two_playlists_def by code_simp
  then have ne: "playQueue example_two_playlists \<noteq> []" by simp
  have prev: "getChunkLocation isAbsoluteUrl_spec example_two_playlists
      (Some (last (playQueue example_two_playlists))) = Inr (Some ?a, 0)"
    unfolding example_two_playlists_def example_variant_def by code_simp
  have a1: "getChunkLocation isAbsoluteUrl_spec example_two_playlists (Some ''/a1'') = Inr (Some ?a, 1)"
    unfolding example_two_playlists_def example_variant_def by code_simp
  have b0: "getChunkLocation isAbsoluteUrl_spec example_two_playlists (Some ''/b0'') = Inr (Some ?b, 0)"
    unfolding example_two_playlists_def example_variant_def by code_simp
  have pr: "map priority (batch isAbsoluteUrl_spec ?b (nat 0) 0) = [0, 1]"
    unfolding example_variant_def by code_simp
  have q': "playQueue example_replaced = [''/a0'']"
    unfolding example_replaced_def by code_simp
  then have ne': "playQueue example_replaced \<noteq> []" by simp
  have prev': "getChunkLocation isAbsoluteUrl_spec example_replaced
      (Some (last (playQueue example_replaced))) = Inr (None, - 1)"
    unfolding example_replaced_def by code_simp
  have a6: "getChunkLocation isAbsoluteUrl_spec example_replaced (Some ''/a6'') = Inr (Some ?c, 1)"
    unfolding example_replaced_def example_variant_def by code_simp
  from loadChunk_play_queue [OF a1 ne prev, of "Some 3" "Some 4" 1] q
  have c1: "playQueue (projr (loadChunk isAbsoluteUrl_spec ''/a1'' (Some 3) (Some 4) 1 example_two_playlists)) = [''/a0'']"
    by auto
  from loadChunk_play_queue [OF b0 ne prev, of "Some 3" "Some 4" 1]
  have c2: "playQueue (projr (loadChunk isAbsoluteUrl_spec ''/b0'' (Some 3) (Some 4) 1 example_two_playlists)) = []"
    and c3: "map priority (files (last (loaderCalls
     (projr (loadChunk isAbsoluteUrl_spec ''/b0'' (Some 3) (Some 4) 1 example_two_playlists))))) = [0, 1]"
    using pr by auto
  from loadChunk_play_queue [OF a6 ne' prev', of "Some 3" "Some 4" 1] q'
  have c4: "playQueue (projr (loadChunk isAbsoluteUrl_spec ''/a6'' (Some 3) (Some 4) 1 example_replaced)) = [''/a0'']"
    by auto
  from q prev a1 b0 c1 c2 c3 prev' c4 show ?thesis by simp
qed

text \<open>
  The claim as stated fails where the last element of the play queue locates at index
  \<open>i - 1\<close> of another playlist than the requested chunk: the play queue is kept.
\<close>

theorem loadChunk_play_queue_counterexample:
  "playQueue example_two_playlists = [''/a0''] \<and>
   fst (projr (getChunkLocation isAbsoluteUrl_spec example_two_playlists (Some ''/a0''))) =
     Some (example_variant ''/a''\<lparr>manifest := \<lparr>manifest_segments = [''a0'', ''a1''], manifest_playlists = None\<rparr>\<rparr>) \<and>
   snd (projr (getChunkLocation isAbsoluteUrl_spec example_two_playlists (Some ''/a0''))) = 0 \<and>
   fst (projr (getChunkLocation isAbsoluteUrl_spec example_two_playlists (Some ''/b1''))) =
     Some (example_variant ''/b''\<lparr>manifest := \<lparr>manifest_segments = [''b0'', ''b1''], manifest_playlists = None\<rparr>\<rparr>) \<and>
   snd (projr (getChunkLocation isAbsoluteUrl_spec example_two_playlists (Some ''/b1''))) = 1 \<and>
   playQueue (projr (loadChunk isAbsoluteUrl_spec ''/b1'' (Some 3) (Some 4) 1 example_two_playlists)) = [''/a0''] \<and>
   playQueue (projr (loadChunk isAbsoluteUrl_spec ''/b1'' (Some 3) (Some 4) 1 example_two_playlists)) \<noteq> []"
  unfolding example_two_playlists_def example_variant_def by code_simp

text \<open>
  C3 (amended). Let a playlist be registered by \<^verbatim>\<open>processHlsPlaylist\<close> and let \<open>a\<close> be the
  absolute URL of its segment \<open>i\<close>, not empty. Locating \<open>a\<close> returns a registered playlist
  and the first index at which that playlist has a segment with absolute URL \<open>a\<close>. It
  returns the registered playlist itself with index \<open>i\<close> when no earlier segment of it has
  the absolute URL \<open>a\<close> and no other registered playlist has a segment with that URL.
\<close>

theorem locate_registered_segment:
  assumes reg: "processHlsPlaylist parse u content s = Inr s'"
      and new: "new_Playlist u (parse content) = Inr p"
      and i: "i < length (manifest_segments (manifest p))"
      and a: "getChunkAbsoluteUrl isAbsoluteUrl p (int i) = Inr a"
      and ne: "a \<noteq> []"
  shows "(\<exists>q j. getChunkLocation isAbsoluteUrl s' (Some a) = Inr (Some q, int j) \<and>
            q \<in> snd ` set (playlists s') \<and>
            j < length (manifest_segments (manifest q)) \<and>
            getChunkAbsoluteUrl isAbsoluteUrl q (int j) = Inr a \<and>
            (\<forall>k<j. getChunkAbsoluteUrl isAbsoluteUrl q (int k) \<noteq> Inr a)) \<and>
         ((\<forall>k<i. getChunkAbsoluteUrl isAbsoluteUrl p (int k) \<noteq> Inr a) \<and>
          (\<forall>q \<in> snd ` set (playlists s'). q \<noteq> p \<longrightarrow> getChunkIndex isAbsoluteUrl q a = Inr (- 1)) \<longrightarrow>
          getChunkLocation isAbsoluteUrl s' (Some a) = Inr (Some p, int i))"
proof -
  let ?ps = "map snd (playlists s')"
  have s': "playlists s' = Map_set u p (playlists s)"
    using processHlsPlaylist_Inr [OF reg new] by simp
  have mem: "p \<in> set ?ps"
    using Map_set_mem [of u p "playlists s"] s' by force
  have ai: "absoluteUrls isAbsoluteUrl p ! i = a"
    using a i by (simp add: absoluteUrls_nth_eq)
  then have am: "a \<in> set (absoluteUrls isAbsoluteUrl p)"
    using i by (metis length_absoluteUrls nth_mem)
  have loc: "getChunkLocation isAbsoluteUrl s' (Some a) = getChunkLocation_loop isAbsoluteUrl ?ps a"
    using ne by (simp add: getChunkLocation_def)
  have general: "\<exists>q j. getChunkLocation isAbsoluteUrl s' (Some a) = Inr (Some q, int j) \<and>
            q \<in> snd ` set (playlists s') \<and>
            j < length (manifest_segments (manifest q)) \<and>
            getChunkAbsoluteUrl isAbsoluteUrl q (int j) = Inr a \<and>
            (\<forall>k<j. getChunkAbsoluteUrl isAbsoluteUrl q (int k) \<noteq> Inr a)"
  proof -
    from getChunkLocation_loop_member [OF mem am]
    obtain q where q: "q \<in> set ?ps" "a \<in> set (absoluteUrls isAbsoluteUrl q)"
      and l: "getChunkLocation_loop isAbsoluteUrl ?ps a = Inr (Some q, indexOf (absoluteUrls isAbsoluteUrl q) a)"
      by blast
    let ?j = "nat (indexOf (absoluteUrls isAbsoluteUrl q) a)"
    have nn: "0 \<le> indexOf (absoluteUrls isAbsoluteUrl q) a"
      using q by (simp add: indexOf_nonneg_iff)
    have lt: "?j < length (manifest_segments (manifest q))"
      using indexOf_less [of "absoluteUrls isAbsoluteUrl q" a] q nn by auto
    have "getChunkLocation isAbsoluteUrl s' (Some a) = Inr (Some q, int ?j)"
      using loc l nn by simp
    moreover have "q \<in> snd ` set (playlists s')" using q by simp
    moreover have "getChunkAbsoluteUrl isAbsoluteUrl q (int ?j) = Inr a"
      using getChunkAbsoluteUrl_nth [OF lt, of isAbsoluteUrl] indexOf_nth [OF q(2)]
      by (simp only:)
    moreover have "\<forall>k<?j. getChunkAbsoluteUrl isAbsoluteUrl q (int k) \<noteq> Inr a"
      using lt indexOf_first [of _ "absoluteUrls isAbsoluteUrl q" a]
      by (simp add: getChunkAbsoluteUrl_nth)
    ultimately show ?thesis using lt by blast
  qed
  have exact: "getChunkLocation isAbsoluteUrl s' (Some a) = Inr (Some p, int i)"
    if first: "\<forall>k<i. getChunkAbsoluteUrl isAbsoluteUrl p (int k) \<noteq> Inr a"
    and others: "\<forall>q \<in> snd ` set (playlists s'). q \<noteq> p \<longrightarrow> getChunkIndex isAbsoluteUrl q a = Inr (- 1)"
  proof -
    have "indexOf (absoluteUrls isAbsoluteUrl p) a = int i"
    proof (rule indexOf_eqI)
      show "i < length (absoluteUrls isAbsoluteUrl p)" using i by simp
      show "absoluteUrls isAbsoluteUrl p ! i = a" by (rule ai)
      fix k assume "k < i"
      with first i show "absoluteUrls isAbsoluteUrl p ! k \<noteq> a"
        by (simp add: getChunkAbsoluteUrl_nth)
    qed
    moreover have "getChunkLocation_loop isAbsoluteUrl ?ps a =
        Inr (Some p, indexOf (absoluteUrls isAbsoluteUrl p) a)"
    proof (rule getChunkLocation_loop_first [OF mem am])
      fix q assume "q \<in> set ?ps" "q \<noteq> p"
      with others have "getChunkIndex isAbsoluteUrl q a = Inr (- 1)" by auto
      then show "a \<notin> set (absoluteUrls isAbsoluteUrl q)"
        by (simp add: getChunkIndex_eq indexOf_neg_iff)
    qed
    ultimately show ?thesis using loc by simp
  qed
  from general exact show ?thesis by blast
qed

theorem locate_registered_segment_witness:
  "processHlsPlaylist parse_example ''/p'' ''a,a,b'' new_ChunkManager =
     Inr (new_ChunkManager\<lparr>playlists := [(''/p'', example_repeated)]\<rparr>) \<and>
   new_Playlist ''/p'' (parse_example ''a,a,b'') = Inr example_repeated \<and>
   2 < length (manifest_segments (manifest example_repeated)) \<and>
   getChunkAbsoluteUrl isAbsoluteUrl_spec example_repeated (int 2) = Inr ''/b'' \<and>
   getChunkAbsoluteUrl isAbsoluteUrl_spec example_repeated (int 0) \<noteq> Inr ''/b'' \<and>
   getChunkAbsoluteUrl isAbsoluteUrl_spec example_repeated (int 1) \<noteq> Inr ''/b'' \<and>
   getChunkLocation isAbsoluteUrl_spec (new_ChunkManager\<lparr>playlists := [(''/p'', example_repeated)]\<rparr>)
     (Some ''/b'') = Inr (Some example_repeated, int 2)"
proof -
  let ?s = "new_ChunkManager\<lparr>playlists := [(''/p'', example_repeated)]\<rparr>"
  have new: "new_Playlist ''/p'' (parse_example ''a,a,b'') = Inr example_repeated"
    by (simp add: new_Playlist_def parse_example_def example_repeated_def)
  have reg: "processHlsPlaylist parse_example ''/p'' ''a,a,b'' new_ChunkManager = Inr ?s"
    by (simp add: processHlsPlaylist_def new new_ChunkManager_def)
  have i: "2 < length (manifest_segments (manifest example_repeated))"
    by (simp add: example_repeated_def)
  have a: "getChunkAbsoluteUrl isAbsoluteUrl_spec example_repeated (int 2) = Inr ''/b''"
    by (simp add: getChunkAbsoluteUrl_def example_repeated_def isAbsoluteUrl_spec_def)
  have f0: "getChunkAbsoluteUrl isAbsoluteUrl_spec example_repeated (int 0) \<noteq> Inr ''/b''"
    and f1: "getChunkAbsoluteUrl isAbsoluteUrl_spec example_repeated (int 1) \<noteq> Inr ''/b''"
    by (simp_all add: getChunkAbsoluteUrl_def example_repeated_def isAbsoluteUrl_spec_def)
  have first: "\<forall>k<2. getChunkAbsoluteUrl isAbsoluteUrl_spec example_repeated (int k) \<noteq> Inr ''/b''"
    using f0 f1 by (auto simp: less_Suc_eq numeral_2_eq_2)
  have others: "\<forall>q \<in> snd ` set (playlists ?s). q \<noteq> example_repeated \<longrightarrow>
      getChunkIndex isAbsoluteUrl_spec q ''/b'' = Inr (- 1)"
    by (simp add: new_ChunkManager_def)
  have ne: "''/b'' \<noteq> []" by simp
  from locate_registered_segment [OF reg new i a ne] first others
  have "getChunkLocation isAbsoluteUrl_spec ?s (Some ''/b'') = Inr (Some example_repeated, int 2)"
    by blast
  with reg new i a f0 f1 show ?thesis by blast
qed

text \<open>
  The claim as stated fails where a playlist lists one URI twice: the URL of segment 1 is
  located at index 0.
\<close>

theorem locate_registered_segment_counterexample:
  "processHlsPlaylist parse_example ''/p'' ''a,a,b'' new_ChunkManager =
     Inr (new_ChunkManager\<lparr>playlists := [(''/p'', example_repeated)]\<rparr>) \<and>
   getChunkAbsoluteUrl isAbsoluteUrl_spec example_repeated 1 = Inr ''/a'' \<and>
   getChunkLocation isAbsoluteUrl_spec (new_ChunkManager\<lparr>playlists := [(''/p'', example_repeated)]\<rparr>)
     (Some ''/a'') = Inr (Some example_repeated, 0) \<and>
   getChunkLocation isAbsoluteUrl_spec (new_ChunkManager\<lparr>playlists := [(''/p'', example_repeated)]\<rparr>)
     (Some ''/a'') \<noteq> Inr (Some example_repeated, 1)"
  unfolding example_repeated_def by code_simp

text \<open>
  C4 (amended). With no master playlist registered, for the master playlist itself, and for a
  playlist whose url is not among the master's child playlist URLs, the swarm id is the
  playlist's own url. For a playlist with another url than the master's, whose url is at
  position \<open>k\<close> of the master's child playlist URLs and at no earlier position, the swarm id
  is the master's url, \<^verbatim>\<open>+\<close> and \<open>k\<close> in decimal digits. The master playlist is the first
  registered playlist whose manifest has a list of playlists: no playlist registered before
  it has one.
\<close>

theorem swarm_id:
  "(getMasterPlaylist s = None \<longrightarrow> getSwarmId isAbsoluteUrl s p = url p) \<and>
   (getMasterPlaylist s = Some m \<and> url m = url p \<longrightarrow> getSwarmId isAbsoluteUrl s p = url p) \<and>
   (getMasterPlaylist s = Some m \<and> url p \<notin> set (getChildPlaylistAbsoluteUrls isAbsoluteUrl m) \<longrightarrow>
      getSwarmId isAbsoluteUrl s p = url p) \<and>
   (getMasterPlaylist s = Some m \<and> url m \<noteq> url p \<and>
    k < length (getChildPlaylistAbsoluteUrls isAbsoluteUrl m) \<and>
    getChildPlaylistAbsoluteUrls isAbsoluteUrl m ! k = url p \<and>
    (\<forall>j<k. getChildPlaylistAbsoluteUrls isAbsoluteUrl m ! j \<noteq> url p) \<longrightarrow>
      getSwarmId isAbsoluteUrl s p = url m @ ''+'' @ String_of_nat k) \<and>
   (getMasterPlaylist s = None \<longleftrightarrow>
      (\<forall>q \<in> snd ` set (playlists s). manifest_playlists (manifest q) = None)) \<and>
   (getMasterPlaylist s = Some m \<longrightarrow>
      m \<in> snd ` set (playlists s) \<and> manifest_playlists (manifest m) \<noteq> None \<and>
      (\<exists>before after. map snd (playlists s) = before @ m # after \<and>
         (\<forall>q \<in> set before. manifest_playlists (manifest q) = None)))"
proof -
  let ?urls = "getChildPlaylistAbsoluteUrls isAbsoluteUrl m"
  have 1: "getMasterPlaylist s = None \<longrightarrow> getSwarmId isAbsoluteUrl s p = url p"
    by (simp add: getSwarmId_def)
  have 2: "getMasterPlaylist s = Some m \<and> url m = url p \<longrightarrow> getSwarmId isAbsoluteUrl s p = url p"
    by (simp add: getSwarmId_def)
  have 3: "getMasterPlaylist s = Some m \<and> url p \<notin> set ?urls \<longrightarrow> getSwarmId isAbsoluteUrl s p = url p"
    by (simp add: getSwarmId_def getSwarmId_loop_0)
  have 4: "getSwarmId isAbsoluteUrl s p = url m @ ''+'' @ String_of_nat k"
    if m: "getMasterPlaylist s = Some m" and ne: "url m \<noteq> url p" and k: "k < length ?urls"
      and at: "?urls ! k = url p" and first: "\<forall>j<k. ?urls ! j \<noteq> url p"
  proof -
    have "indexOf ?urls (url p) = int k"
      using k at first by (intro indexOf_eqI) auto
    moreover have "url p \<in> set ?urls"
      using k at by (metis nth_mem)
    ultimately show ?thesis
      using m ne by (simp add: getSwarmId_def getSwarmId_loop_0)
  qed
  have 5: "getMasterPlaylist s = None \<longleftrightarrow>
      (\<forall>q \<in> snd ` set (playlists s). manifest_playlists (manifest q) = None)"
    by (simp add: getMasterPlaylist_def getMasterPlaylist_loop_None)
  have 6: "getMasterPlaylist s = Some m \<longrightarrow>
      m \<in> snd ` set (playlists s) \<and> manifest_playlists (manifest m) \<noteq> None \<and>
      (\<exists>before after. map snd (playlists s) = before @ m # after \<and>
         (\<forall>q \<in> set before. manifest_playlists (manifest q) = None))"
    using getMasterPlaylist_loop_Some [of "map snd (playlists s)" m]
      getMasterPlaylist_loop_first [of "map snd (playlists s)" m]
    by (auto simp: getMasterPlaylist_def)
  from 1 2 3 4 5 6 show ?thesis by blast
qed

theorem swarm_id_witness:
  "getMasterPlaylist new_ChunkManager = None \<and>
   getSwarmId isAbsoluteUrl_spec new_ChunkManager (example_variant ''/v2'') = ''/v2'' \<and>
   getMasterPlaylist example_requested = Some example_master \<and>
   getSwarmId isAbsoluteUrl_spec example_requested example_master = ''/m'' \<and>
   ''/w'' \<notin> set (getChildPlaylistAbsoluteUrls isAbsoluteUrl_spec example_master) \<and>
   getSwarmId isAbsoluteUrl_spec example_requested (example_variant ''/w'') = ''/w'' \<and>
   getChildPlaylistAbsoluteUrls isAbsoluteUrl_spec example_master ! 1 = ''/v2'' \<and>
   getChildPlaylistAbsoluteUrls isAbsoluteUrl_spec example_master ! 0 \<noteq> ''/v2'' \<and>
   getSwarmId isAbsoluteUrl_spec example_requested (example_variant ''/v2'') = ''/m+1'' \<and>
   map snd (playlists example_two_masters) =
     [example_variant ''/v1''] @ example_master\<lparr>url := ''/m1''\<rparr> #
     [\<lparr>url = ''/m2'', baseUrl = ''/'',
       manifest = \<lparr>manifest_segments = [], manifest_playlists = Some [''v2'', ''v1'']\<rparr>\<rparr>] \<and>
   manifest_playlists (manifest (example_variant ''/v1'')) = None \<and>
   getMasterPlaylist example_two_masters = Some (example_master\<lparr>url := ''/m1''\<rparr>) \<and>
   getSwarmId isAbsoluteUrl_spec example_two_masters (example_master\<lparr>url := ''/m1''\<rparr>) = ''/m1'' \<and>
   getSwarmId isAbsoluteUrl_spec example_two_masters (example_variant ''/v2'') = ''/m1+1''"
proof -
  let ?urls = "getChildPlaylistAbsoluteUrls isAbsoluteUrl_spec example_master"
  let ?m1 = "example_master\<lparr>url := ''/m1''\<rparr>"
  let ?urls1 = "getChildPlaylistAbsoluteUrls isAbsoluteUrl_spec ?m1"
  have n: "getMasterPlaylist new_ChunkManager = None"
    by (simp add: getMasterPlaylist_def new_ChunkManager_def)
  have m: "getMasterPlaylist example_requested = Some example_master"
    unfolding example_requested_def example_master_def by code_simp
  have urls: "?urls = [''/v1'', ''/v2'']"
    unfolding example_master_def by code_simp
  have u: "url (example_variant ''/v2'') = ''/v2''" "url (example_variant ''/w'') = ''/w''"
    "url example_master = ''/m''"
    by (simp_all add: example_variant_def example_master_def)
  have d: "String_of_nat 1 = ''1''"
    by code_simp
  from swarm_id [of new_ChunkManager isAbsoluteUrl_spec "example_variant ''/v2''"] n u
  have a: "getSwarmId isAbsoluteUrl_spec new_ChunkManager (example_variant ''/v2'') = ''/v2''"
    by metis
  from swarm_id [of example_requested isAbsoluteUrl_spec example_master example_master] m u
  have b: "getSwarmId isAbsoluteUrl_spec example_requested example_master = ''/m''"
    by metis
  have w: "''/w'' \<notin> set ?urls"
    by (simp add: urls)
  from swarm_id [of example_requested isAbsoluteUrl_spec "example_variant ''/w''" example_master] m u w
  have c: "getSwarmId isAbsoluteUrl_spec example_requested (example_variant ''/w'') = ''/w''"
    by metis
  have k: "1 < length ?urls" "?urls ! 1 = ''/v2''" "?urls ! 0 \<noteq> ''/v2''" "''/m'' \<noteq> ''/v2''"
    by (simp_all add: urls)
  then have f: "\<forall>j<1. ?urls ! j \<noteq> url (example_variant ''/v2'')"
    using u by simp
  from swarm_id [of example_requested isAbsoluteUrl_spec "example_variant ''/v2''" example_master 1] m u k f d
  have e: "getSwarmId isAbsoluteUrl_spec example_requested (example_variant ''/v2'') = ''/m+1''"
    by simp
  have ps: "map snd (playlists example_two_masters) =
     [example_variant ''/v1''] @ ?m1 #
     [\<lparr>url = ''/m2'', baseUrl = ''/'',
       manifest = \<lparr>manifest_segments = [], manifest_playlists = Some [''v2'', ''v1'']\<rparr>\<rparr>]"
    unfolding example_two_masters_def example_variant_def example_master_def by code_simp
  have v1: "manifest_playlists (manifest (example_variant ''/v1'')) = None"
    by (simp add: example_variant_def)
  have m1: "getMasterPlaylist example_two_masters = Some ?m1"
    unfolding example_two_masters_def example_master_def by code_simp
  have urls1: "?urls1 = [''/v1'', ''/v2'']"
    unfolding example_master_def by code_simp
  have u1: "url ?m1 = ''/m1''"
    by simp
  from swarm_id [of example_two_masters isAbsoluteUrl_spec ?m1 ?m1] m1
  have b1: "getSwarmId isAbsoluteUrl_spec example_two_masters ?m1 = ''/m1''"
    by (metis u1)
  have k1: "1 < length ?urls1" "?urls1 ! 1 = ''/v2''" "''/m1'' \<noteq> ''/v2''"
    by (simp_all add: urls1)
  have f1: "\<forall>j<1. ?urls1 ! j \<noteq> url (example_variant ''/v2'')"
    using u by (simp add: urls1)
  from swarm_id [of example_two_masters isAbsoluteUrl_spec "example_variant ''/v2''" ?m1 1] m1 u u1 k1 f1 d
  have e1: "getSwarmId isAbsoluteUrl_spec example_two_masters (example_variant ''/v2'') = ''/m1+1''"
    by simp
  from n a m b w c k e ps v1 m1 b1 e1 show ?thesis by blast
qed

text \<open>
  The claim as stated fails for a position that is not the first one holding the url: the
  master lists the variant at positions 0 and 1, and the swarm id ends in 0.
\<close>

theorem swarm_id_counterexample:
  "getMasterPlaylist (new_ChunkManager\<lparr>playlists := [(''/m'', example_master_twice)]\<rparr>)
     = Some example_master_twice \<and>
   getChildPlaylistAbsoluteUrls isAbsoluteUrl_spec example_master_twice ! 1 = url (example_variant ''/v'') \<and>
   getSwarmId isAbsoluteUrl_spec (new_ChunkManager\<lparr>playlists := [(''/m'', example_master_twice)]\<rparr>)
     (example_variant ''/v'') = ''/m+0'' \<and>
   getSwarmId isAbsoluteUrl_spec (new_ChunkManager\<lparr>playlists := [(''/m'', example_master_twice)]\<rparr>)
     (example_variant ''/v'') \<noteq> url example_master_twice @ ''+'' @ String_of_nat 1"
  unfolding example_master_twice_def example_variant_def by code_simp

text \<open>
  C5. When \<^verbatim>\<open>loadChunk\<close> locates the requested url at index \<open>i\<close> of a playlist with \<open>n\<close>
  segments, it makes exactly one call of the loader. The batch of that call has \<open>n - i\<close>
  descriptors; descriptor \<open>j\<close> carries the absolute URL of segment \<open>i + j\<close> and the priority
  \<open>max 0 (queue length - 1) + j\<close>, the queue being the play queue at the submission (that is,
  after the sequence check, as the call leaves it). The call carries the swarm id resolved
  for the playlist and the requested url as the third argument.
\<close>

theorem loadChunk_batch:
  assumes "getChunkLocation isAbsoluteUrl s (Some u) = Inr (Some p, i)"
  shows "\<exists>s' fs. loadChunk isAbsoluteUrl u onS onE r s = Inr s' \<and>
           loaderCalls s' = loaderCalls s @
             [\<lparr>files = fs, swarmId = getSwarmId isAbsoluteUrl s' p, loadUrl = Some u\<rparr>] \<and>
           0 \<le> i \<and> nat i < length (manifest_segments (manifest p)) \<and>
           length fs = length (manifest_segments (manifest p)) - nat i \<and>
           (\<forall>j < length fs.
              getChunkAbsoluteUrl isAbsoluteUrl p (i + int j) = Inr (fileUrl (fs ! j)) \<and>
              priority (fs ! j) = max 0 (int (length (playQueue s')) - 1) + int j)"
proof -
  note ix = getChunkLocation_Some_index [OF assms]
  obtain q where seq: "loadChunk_sequence isAbsoluteUrl i s = Inr (s\<lparr>playQueue := q\<rparr>)"
    using loadChunk_sequence_total [of isAbsoluteUrl i s] by blast
  let ?fs = "batch isAbsoluteUrl p (nat i) (priorityBase q)"
  let ?s' = "s\<lparr>playQueue := q,
            chunk := Some \<lparr>chunkUrl = u, onSuccess = onS, onError = onE\<rparr>,
            loaderCalls := loaderCalls s @
              [\<lparr>files = ?fs, swarmId = getSwarmId isAbsoluteUrl s p, loadUrl = Some u\<rparr>],
            prevLoadUrl := Some u\<rparr>"
  have l: "loadChunk isAbsoluteUrl u onS onE r s = Inr ?s'"
    by (rule loadChunk_located [OF assms seq])
  have sw: "getSwarmId isAbsoluteUrl ?s' p = getSwarmId isAbsoluteUrl s p"
    by (rule getSwarmId_playlists) simp
  have c: "loaderCalls ?s' = loaderCalls s @
      [\<lparr>files = ?fs, swarmId = getSwarmId isAbsoluteUrl ?s' p, loadUrl = Some u\<rparr>]"
    by (simp only: sw) simp
  have len: "length ?fs = length (manifest_segments (manifest p)) - nat i"
    by (rule batch_length)
  have each: "getChunkAbsoluteUrl isAbsoluteUrl p (i + int j) = Inr (fileUrl (?fs ! j)) \<and>
      priority (?fs ! j) = max 0 (int (length (playQueue ?s')) - 1) + int j"
    if "j < length ?fs" for j
  proof -
    from that have j: "j < length (manifest_segments (manifest p)) - nat i"
      by (simp add: batch_length)
    then have "nat i + j < length (manifest_segments (manifest p))" by simp
    from getChunkAbsoluteUrl_nth [OF this, of isAbsoluteUrl] ix(1)
    have "getChunkAbsoluteUrl isAbsoluteUrl p (i + int j) =
        Inr (absoluteUrls isAbsoluteUrl p ! (nat i + j))"
      by simp
    with j show ?thesis by (simp add: batch_nth priorityBase_def)
  qed
  from l c ix(1,2) len each show ?thesis by blast
qed

theorem loadChunk_batch_witness:
  "getChunkLocation isAbsoluteUrl_spec example_requested (Some ''/s1'') = Inr (Some (example_variant ''/v1''), 1) \<and>
   loadChunk isAbsoluteUrl_spec ''/s1'' (Some 3) (Some 4) 1 example_requested =
     Inr (example_requested
            \<lparr>chunk := Some \<lparr>chunkUrl = ''/s1'', onSuccess = Some 3, onError = Some 4\<rparr>,
             loaderCalls := loaderCalls example_requested @
               [\<lparr>files = [\<lparr>fileUrl = ''/s1'', priority = 0\<rparr>], swarmId = ''/m+0'', loadUrl = Some ''/s1''\<rparr>],
             prevLoadUrl := Some ''/s1''\<rparr>) \<and>
   (\<exists>s' fs. loadChunk isAbsoluteUrl_spec ''/s1'' (Some 3) (Some 4) 1 example_requested = Inr s' \<and>
      loaderCalls s' = loaderCalls example_requested @
        [\<lparr>files = fs, swarmId = getSwarmId isAbsoluteUrl_spec s' (example_variant ''/v1''), loadUrl = Some ''/s1''\<rparr>] \<and>
      length fs = length (manifest_segments (manifest (example_variant ''/v1''))) - nat 1)"
proof -
  have h: "getChunkLocation isAbsoluteUrl_spec example_requested (Some ''/s1'') =
      Inr (Some (example_variant ''/v1''), 1)"
    unfolding example_requested_def example_variant_def by code_simp
  have e: "loadChunk isAbsoluteUrl_spec ''/s1'' (Some 3) (Some 4) 1 example_requested =
     Inr (example_requested
            \<lparr>chunk := Some \<lparr>chunkUrl = ''/s1'', onSuccess = Some 3, onError = Some 4\<rparr>,
             loaderCalls := loaderCalls example_requested @
               [\<lparr>files = [\<lparr>fileUrl = ''/s1'', priority = 0\<rparr>], swarmId = ''/m+0'', loadUrl = Some ''/s1''\<rparr>],
             prevLoadUrl := Some ''/s1''\<rparr>)"
    unfolding example_requested_def by code_simp
  from loadChunk_batch [OF h, of "Some 3" "Some 4" 1]
  have "\<exists>s' fs. loadChunk isAbsoluteUrl_spec ''/s1'' (Some 3) (Some 4) 1 example_requested = Inr s' \<and>
      loaderCalls s' = loaderCalls example_requested @
        [\<lparr>files = fs, swarmId = getSwarmId isAbsoluteUrl_spec s' (example_variant ''/v1''), loadUrl = Some ''/s1''\<rparr>] \<and>
      length fs = length (manifest_segments (manifest (example_variant ''/v1''))) - nat 1"
    by blast
  with h e show ?thesis by blast
qed

text \<open>
  C6 (amended). When \<^verbatim>\<open>loadChunk\<close> does not locate the url: with \<open>playlistMissRetries > 0\<close>
  it only sets a timer of 500 ms, and the timer's task is the same call with the count that
  the number type computes for \<open>playlistMissRetries - 1\<close>, which is \<open>playlistMissRetries - 1\<close>
  for every count up to \<open>2 ^ 53\<close>; otherwise, given an \<^verbatim>\<open>onError\<close>, it only sets a timer of
  0 ms whose task calls \<^verbatim>\<open>onError\<close> with the message
  \<^verbatim>\<open>Requested chunk cannot be located in known playlists\<close>, so that no callback is invoked by
  the call itself. No exception is raised. A url that stays unlocated is reported once, after
  exactly \<open>n\<close> retries, when the call had \<open>n\<close> retries left and \<open>n\<close> is at most \<open>2 ^ 53\<close>.
\<close>

theorem loadChunk_retry:
  assumes "getChunkLocation isAbsoluteUrl s (Some u) = Inr (None, i)"
  shows "(0 < r \<longrightarrow>
            loadChunk isAbsoluteUrl u onS onE r s =
              Inr (s\<lparr>timers := timers s @ [(500, RetryLoadChunk u onS onE (Number_minus r 1))]\<rparr>) \<and>
            timerFires isAbsoluteUrl (length (timers s))
                (s\<lparr>timers := timers s @ [(500, RetryLoadChunk u onS onE (Number_minus r 1))]\<rparr>) =
              loadChunk isAbsoluteUrl u onS onE (Number_minus r 1) s) \<and>
         (0 < r \<and> r \<le> 2 ^ 53 \<longrightarrow>
            Number_minus r 1 = r - 1 \<and>
            loadChunk isAbsoluteUrl u onS onE r s =
              Inr (s\<lparr>timers := timers s @ [(500, RetryLoadChunk u onS onE (r - 1))]\<rparr>) \<and>
            timerFires isAbsoluteUrl (length (timers s))
                (s\<lparr>timers := timers s @ [(500, RetryLoadChunk u onS onE (r - 1))]\<rparr>) =
              loadChunk isAbsoluteUrl u onS onE (r - 1) s) \<and>
         (r \<le> 0 \<longrightarrow>
            loadChunk isAbsoluteUrl u onS (Some f) r s =
              Inr (s\<lparr>timers := timers s @
                     [(0, CallOnError f ''Requested chunk cannot be located in known playlists'')]\<rparr>) \<and>
            timerFires isAbsoluteUrl (length (timers s))
                (s\<lparr>timers := timers s @
                     [(0, CallOnError f ''Requested chunk cannot be located in known playlists'')]\<rparr>) =
              Inr (s\<lparr>invoked := invoked s @
                     [(f, ''Requested chunk cannot be located in known playlists'')]\<rparr>) \<and>
            loadChunk isAbsoluteUrl u onS None r s = Inr s) \<and>
         (int n \<le> 2 ^ 53 \<longrightarrow>
            run parse isAbsoluteUrl
                (LoadChunk u onS (Some f) (int n) # replicate (Suc n) (TimerFires (length (timers s)))) s =
              s\<lparr>invoked := invoked s @
                  [(f, ''Requested chunk cannot be located in known playlists'')]\<rparr>)"
proof -
  have a: "0 < r \<longrightarrow>
            loadChunk isAbsoluteUrl u onS onE r s =
              Inr (s\<lparr>timers := timers s @ [(500, RetryLoadChunk u onS onE (Number_minus r 1))]\<rparr>) \<and>
            timerFires isAbsoluteUrl (length (timers s))
                (s\<lparr>timers := timers s @ [(500, RetryLoadChunk u onS onE (Number_minus r 1))]\<rparr>) =
              loadChunk isAbsoluteUrl u onS onE (Number_minus r 1) s" for r
    by (simp add: loadChunk_not_located [OF assms] timerFires_last runTask_def)
  have a': "0 < r \<and> r \<le> 2 ^ 53 \<longrightarrow>
            Number_minus r 1 = r - 1 \<and>
            loadChunk isAbsoluteUrl u onS onE r s =
              Inr (s\<lparr>timers := timers s @ [(500, RetryLoadChunk u onS onE (r - 1))]\<rparr>) \<and>
            timerFires isAbsoluteUrl (length (timers s))
                (s\<lparr>timers := timers s @ [(500, RetryLoadChunk u onS onE (r - 1))]\<rparr>) =
              loadChunk isAbsoluteUrl u onS onE (r - 1) s"
  proof
    assume r: "0 < r \<and> r \<le> 2 ^ 53"
    then have e: "Number_minus r 1 = r - 1" by (simp add: Number_minus_exact)
    from a [of r] r show "Number_minus r 1 = r - 1 \<and>
            loadChunk isAbsoluteUrl u onS onE r s =
              Inr (s\<lparr>timers := timers s @ [(500, RetryLoadChunk u onS onE (r - 1))]\<rparr>) \<and>
            timerFires isAbsoluteUrl (length (timers s))
                (s\<lparr>timers := timers s @ [(500, RetryLoadChunk u onS onE (r - 1))]\<rparr>) =
              loadChunk isAbsoluteUrl u onS onE (r - 1) s"
      by (simp add: e)
  qed
  have b: "r \<le> 0 \<longrightarrow>
            loadChunk isAbsoluteUrl u onS (Some f) r s =
              Inr (s\<lparr>timers := timers s @
                     [(0, CallOnError f ''Requested chunk cannot be located in known playlists'')]\<rparr>) \<and>
            timerFires isAbsoluteUrl (length (timers s))
                (s\<lparr>timers := timers s @
                     [(0, CallOnError f ''Requested chunk cannot be located in known playlists'')]\<rparr>) =
              Inr (s\<lparr>invoked := invoked s @
                     [(f, ''Requested chunk cannot be located in known playlists'')]\<rparr>) \<and>
            loadChunk isAbsoluteUrl u onS None r s = Inr s"
    by (simp add: loadChunk_not_located [OF assms] timerFires_last runTask_def message_def)
  have c: "int n \<le> 2 ^ 53 \<longrightarrow>
            run parse isAbsoluteUrl
                (LoadChunk u onS (Some f) (int n) # replicate (Suc n) (TimerFires (length (timers s)))) s =
              s\<lparr>invoked := invoked s @
                  [(f, ''Requested chunk cannot be located in known playlists'')]\<rparr>"
  proof (induction n)
    case 0
    show ?case
      by (simp add: loadChunk_not_located [OF assms] keep_def timerFires_last runTask_def message_def)
  next
    case (Suc n)
    show ?case
    proof
      assume le: "int (Suc n) \<le> 2 ^ 53"
      then have e: "Number_minus (int (Suc n)) 1 = int n"
        using Number_minus_exact [of "int (Suc n)"] by simp
      have "run parse isAbsoluteUrl
          (LoadChunk u onS (Some f) (int (Suc n)) #
             replicate (Suc (Suc n)) (TimerFires (length (timers s)))) s =
        run parse isAbsoluteUrl
          (LoadChunk u onS (Some f) (int n) # replicate (Suc n) (TimerFires (length (timers s)))) s"
        using e by (simp add: loadChunk_not_located [OF assms] keep_def timerFires_last runTask_def)
      with Suc le show "run parse isAbsoluteUrl
          (LoadChunk u onS (Some f) (int (Suc n)) #
             replicate (Suc (Suc n)) (TimerFires (length (timers s)))) s =
          s\<lparr>invoked := invoked s @
              [(f, ''Requested chunk cannot be located in known playlists'')]\<rparr>"
        by simp
    qed
  qed
  from a [of r] a' b c show ?thesis by blast
qed

theorem loadChunk_retry_witness:
  "getChunkLocation isAbsoluteUrl_spec new_ChunkManager (Some ''/x'') = Inr (None, - 1) \<and>
   loadChunk isAbsoluteUrl_spec ''/x'' (Some 1) (Some 2) 1 new_ChunkManager =
     Inr (new_ChunkManager\<lparr>timers := [(500, RetryLoadChunk ''/x'' (Some 1) (Some 2) 0)]\<rparr>) \<and>
   timerFires isAbsoluteUrl_spec 0
     (new_ChunkManager\<lparr>timers := [(500, RetryLoadChunk ''/x'' (Some 1) (Some 2) 0)]\<rparr>) =
     Inr (new_ChunkManager\<lparr>timers :=
       [(0, CallOnError 2 ''Requested chunk cannot be located in known playlists'')]\<rparr>) \<and>
   timerFires isAbsoluteUrl_spec 0
     (new_ChunkManager\<lparr>timers :=
       [(0, CallOnError 2 ''Requested chunk cannot be located in known playlists'')]\<rparr>) =
     Inr (new_ChunkManager\<lparr>invoked :=
       [(2, ''Requested chunk cannot be located in known playlists'')]\<rparr>) \<and>
   run parse_example isAbsoluteUrl_spec
     [LoadChunk ''/x'' (Some 1) (Some 2) 1, TimerFires 0, TimerFires 0] new_ChunkManager =
     new_ChunkManager\<lparr>invoked :=
       [(2, ''Requested chunk cannot be located in known playlists'')]\<rparr>"
proof -
  let ?msg = "''Requested chunk cannot be located in known playlists''"
  have h: "getChunkLocation isAbsoluteUrl_spec new_ChunkManager (Some ''/x'') = Inr (None, - 1)"
    by (simp add: getChunkLocation_def new_ChunkManager_def)
  have e: "timers new_ChunkManager = []" "invoked new_ChunkManager = []"
    by (simp_all add: new_ChunkManager_def)
  have r1: "(0::int) < 1 \<and> (1::int) \<le> 2 ^ 53" "(0::int) \<le> 0" "int 1 \<le> 2 ^ 53"
    by simp_all
  note t1 = loadChunk_retry [OF h, of 1 "Some 1" "Some 2" 2 1 parse_example]
  note t0 = loadChunk_retry [OF h, of 0 "Some 1" "Some 2" 2 1 parse_example]
  from t1 r1 have "loadChunk isAbsoluteUrl_spec ''/x'' (Some 1) (Some 2) 1 new_ChunkManager =
     Inr (new_ChunkManager\<lparr>timers := timers new_ChunkManager @
        [(500, RetryLoadChunk ''/x'' (Some 1) (Some 2) (1 - 1))]\<rparr>)"
    by blast
  then have a: "loadChunk isAbsoluteUrl_spec ''/x'' (Some 1) (Some 2) 1 new_ChunkManager =
     Inr (new_ChunkManager\<lparr>timers := [(500, RetryLoadChunk ''/x'' (Some 1) (Some 2) 0)]\<rparr>)"
    by (simp add: e)
  from t0 r1 have "loadChunk isAbsoluteUrl_spec ''/x'' (Some 1) (Some 2) 0 new_ChunkManager =
     Inr (new_ChunkManager\<lparr>timers := timers new_ChunkManager @ [(0, CallOnError 2 ?msg)]\<rparr>)"
    by blast
  then have b: "loadChunk isAbsoluteUrl_spec ''/x'' (Some 1) (Some 2) 0 new_ChunkManager =
     Inr (new_ChunkManager\<lparr>timers := [(0, CallOnError 2 ?msg)]\<rparr>)"
    by (simp add: e)
  from t1 r1 have "timerFires isAbsoluteUrl_spec (length (timers new_ChunkManager))
     (new_ChunkManager\<lparr>timers := timers new_ChunkManager @
        [(500, RetryLoadChunk ''/x'' (Some 1) (Some 2) (1 - 1))]\<rparr>) =
     loadChunk isAbsoluteUrl_spec ''/x'' (Some 1) (Some 2) (1 - 1) new_ChunkManager"
    by blast
  then have c: "timerFires isAbsoluteUrl_spec 0
     (new_ChunkManager\<lparr>timers := [(500, RetryLoadChunk ''/x'' (Some 1) (Some 2) 0)]\<rparr>) =
     Inr (new_ChunkManager\<lparr>timers := [(0, CallOnError 2 ?msg)]\<rparr>)"
    using b by (simp add: e)
  from t0 r1 have "timerFires isAbsoluteUrl_spec (length (timers new_ChunkManager))
     (new_ChunkManager\<lparr>timers := timers new_ChunkManager @ [(0, CallOnError 2 ?msg)]\<rparr>) =
     Inr (new_ChunkManager\<lparr>invoked := invoked new_ChunkManager @ [(2, ?msg)]\<rparr>)"
    by blast
  then have d: "timerFires isAbsoluteUrl_spec 0 (new_ChunkManager\<lparr>timers := [(0, CallOnError 2 ?msg)]\<rparr>) =
     Inr (new_ChunkManager\<lparr>invoked := [(2, ?msg)]\<rparr>)"
    by (simp add: e)
  have l: "LoadChunk ''/x'' (Some 1) (Some 2) (int 1) #
      replicate (Suc 1) (TimerFires (length (timers new_ChunkManager))) =
      [LoadChunk ''/x'' (Some 1) (Some 2) 1, TimerFires 0, TimerFires 0]"
    by (simp add: e)
  from t1 r1 have "run parse_example isAbsoluteUrl_spec
      (LoadChunk ''/x'' (Some 1) (Some 2) (int 1) #
        replicate (Suc 1) (TimerFires (length (timers new_ChunkManager)))) new_ChunkManager =
      new_ChunkManager\<lparr>invoked := invoked new_ChunkManager @ [(2, ?msg)]\<rparr>"
    by blast
  then have "run parse_example isAbsoluteUrl_spec
     [LoadChunk ''/x'' (Some 1) (Some 2) 1, TimerFires 0, TimerFires 0] new_ChunkManager =
     new_ChunkManager\<lparr>invoked := invoked new_ChunkManager @ [(2, ?msg)]\<rparr>"
    by (simp only: l)
  then have r: "run parse_example isAbsoluteUrl_spec
     [LoadChunk ''/x'' (Some 1) (Some 2) 1, TimerFires 0, TimerFires 0] new_ChunkManager =
     new_ChunkManager\<lparr>invoked := [(2, ?msg)]\<rparr>"
    by (simp only: e append_Nil)
  from h a c d r show ?thesis by blast
qed

text \<open>
  The claim as stated fails for a count above \<open>2 ^ 53\<close>: the call with 9007199254740994
  retries left is scheduled again with 9007199254740992 and not with 9007199254740993, and
  the call with \<open>2 ^ 54\<close> retries left is scheduled again with \<open>2 ^ 54\<close>, so that a url that
  stays unlocated is never reported.
\<close>

theorem loadChunk_retry_counterexample:
  "getChunkLocation isAbsoluteUrl_spec new_ChunkManager (Some ''/x'') = Inr (None, - 1) \<and>
   loadChunk isAbsoluteUrl_spec ''/x'' (Some 1) (Some 2) 9007199254740994 new_ChunkManager =
     Inr (new_ChunkManager\<lparr>timers :=
       [(500, RetryLoadChunk ''/x'' (Some 1) (Some 2) 9007199254740992)]\<rparr>) \<and>
   loadChunk isAbsoluteUrl_spec ''/x'' (Some 1) (Some 2) 9007199254740994 new_ChunkManager \<noteq>
     Inr (new_ChunkManager\<lparr>timers :=
       [(500, RetryLoadChunk ''/x'' (Some 1) (Some 2) (9007199254740994 - 1))]\<rparr>) \<and>
   loadChunk isAbsoluteUrl_spec ''/x'' (Some 1) (Some 2) 18014398509481984 new_ChunkManager =
     Inr (new_ChunkManager\<lparr>timers :=
       [(500, RetryLoadChunk ''/x'' (Some 1) (Some 2) 18014398509481984)]\<rparr>)"
  by code_simp

text \<open>
  C7 (amended). \<^verbatim>\<open>setCurrentChunk\<close> without a url, or with the empty url, changes nothing.
  With a url that is not empty, the play queue becomes its suffix starting at the first
  occurrence of the url, or stays as it is when the url does not occur in it. Then, if there
  is a last requested url and it locates in a known playlist, the batch from that location
  to the end of the playlist is submitted, with priorities from the base of the trimmed
  queue, the swarm id of the playlist and no url as third argument; if there is no last
  requested url, or it does not locate, nothing is submitted. The active chunk request and
  all other fields stay as they are.
\<close>

theorem setCurrentChunk_effect:
  "(\<not> truthy u \<longrightarrow> setCurrentChunk isAbsoluteUrl u s = Inr s) \<and>
   (v \<noteq> [] \<and> getChunkLocation isAbsoluteUrl s (prevLoadUrl s) = Inr (None, i) \<longrightarrow>
      setCurrentChunk isAbsoluteUrl (Some v) s = Inr (s\<lparr>playQueue := trimQueue (playQueue s) v\<rparr>)) \<and>
   (v \<noteq> [] \<and> getChunkLocation isAbsoluteUrl s (prevLoadUrl s) = Inr (Some p, i) \<longrightarrow>
      setCurrentChunk isAbsoluteUrl (Some v) s =
        Inr (s\<lparr>playQueue := trimQueue (playQueue s) v,
               loaderCalls := loaderCalls s @
                 [\<lparr>files = batch isAbsoluteUrl p (nat i) (priorityBase (trimQueue (playQueue s) v)),
                   swarmId = getSwarmId isAbsoluteUrl s p, loadUrl = None\<rparr>]\<rparr>)) \<and>
   (prevLoadUrl s = None \<longrightarrow> getChunkLocation isAbsoluteUrl s (prevLoadUrl s) = Inr (None, - 1)) \<and>
   (v \<in> set q \<longrightarrow> trimQueue q v = dropWhile (\<lambda>x. x \<noteq> v) q) \<and>
   (v \<notin> set q \<longrightarrow> trimQueue q v = q)"
proof -
  have 1: "\<not> truthy u \<longrightarrow> setCurrentChunk isAbsoluteUrl u s = Inr s"
    by (cases u) (simp_all add: setCurrentChunk_def)
  have 2: "v \<noteq> [] \<and> getChunkLocation isAbsoluteUrl s (prevLoadUrl s) = Inr (None, i) \<longrightarrow>
      setCurrentChunk isAbsoluteUrl (Some v) s = Inr (s\<lparr>playQueue := trimQueue (playQueue s) v\<rparr>)"
    by (simp add: setCurrentChunk_eq)
  have 3: "v \<noteq> [] \<and> getChunkLocation isAbsoluteUrl s (prevLoadUrl s) = Inr (Some p, i) \<longrightarrow>
      setCurrentChunk isAbsoluteUrl (Some v) s =
        Inr (s\<lparr>playQueue := trimQueue (playQueue s) v,
               loaderCalls := loaderCalls s @
                 [\<lparr>files = batch isAbsoluteUrl p (nat i) (priorityBase (trimQueue (playQueue s) v)),
                   swarmId = getSwarmId isAbsoluteUrl s p, loadUrl = None\<rparr>]\<rparr>)"
    by (simp add: setCurrentChunk_eq)
  have 4: "prevLoadUrl s = None \<longrightarrow> getChunkLocation isAbsoluteUrl s (prevLoadUrl s) = Inr (None, - 1)"
    by (simp add: getChunkLocation_def)
  have 5: "(v \<in> set q \<longrightarrow> trimQueue q v = dropWhile (\<lambda>x. x \<noteq> v) q) \<and> (v \<notin> set q \<longrightarrow> trimQueue q v = q)"
    by (simp add: trimQueue_def)
  from 1 2 3 4 5 show ?thesis by blast
qed

theorem setCurrentChunk_effect_witness:
  "setCurrentChunk isAbsoluteUrl_spec None example_requested = Inr example_requested \<and>
   getChunkLocation isAbsoluteUrl_spec example_replaced (prevLoadUrl example_replaced) = Inr (None, - 1) \<and>
   setCurrentChunk isAbsoluteUrl_spec (Some ''/a0'') example_replaced = Inr example_replaced \<and>
   snd (projr (getChunkLocation isAbsoluteUrl_spec example_two_playlists (prevLoadUrl example_two_playlists))) = 0 \<and>
   playQueue example_two_playlists = [''/a0''] \<and>
   setCurrentChunk isAbsoluteUrl_spec (Some ''/a0'') example_two_playlists =
     Inr (example_two_playlists\<lparr>loaderCalls := loaderCalls example_two_playlists @
        [\<lparr>files = [\<lparr>fileUrl = ''/a0'', priority = 0\<rparr>, \<lparr>fileUrl = ''/a1'', priority = 1\<rparr>],
          swarmId = ''/a'', loadUrl = None\<rparr>]\<rparr>) \<and>
   getChunkLocation isAbsoluteUrl_spec new_ChunkManager (prevLoadUrl new_ChunkManager) = Inr (None, - 1) \<and>
   setCurrentChunk isAbsoluteUrl_spec (Some ''/a0'') new_ChunkManager = Inr new_ChunkManager"
proof -
  let ?a = "example_variant ''/a''\<lparr>manifest := \<lparr>manifest_segments = [''a0'', ''a1''], manifest_playlists = None\<rparr>\<rparr>"
  have ne: "''/a0'' \<noteq> []" by simp
  have t: "\<not> truthy None" by simp
  from setCurrentChunk_effect [of None isAbsoluteUrl_spec example_requested] t
  have a: "setCurrentChunk isAbsoluteUrl_spec None example_requested = Inr example_requested"
    by blast
  have l1: "getChunkLocation isAbsoluteUrl_spec example_replaced (prevLoadUrl example_replaced) = Inr (None, - 1)"
    unfolding example_replaced_def by code_simp
  have q1: "playQueue example_replaced = [''/a0'']"
    unfolding example_replaced_def by code_simp
  have k1: "trimQueue (playQueue example_replaced) ''/a0'' = playQueue example_replaced"
    by (simp add: q1 trimQueue_def)
  from setCurrentChunk_effect [of None isAbsoluteUrl_spec example_replaced "''/a0''" "- 1"] ne l1
  have "setCurrentChunk isAbsoluteUrl_spec (Some ''/a0'') example_replaced =
      Inr (example_replaced\<lparr>playQueue := trimQueue (playQueue example_replaced) ''/a0''\<rparr>)"
    by blast
  then have b: "setCurrentChunk isAbsoluteUrl_spec (Some ''/a0'') example_replaced = Inr example_replaced"
    by (simp add: k1)
  have l2: "getChunkLocation isAbsoluteUrl_spec example_two_playlists (prevLoadUrl example_two_playlists) =
      Inr (Some ?a, 0)"
    unfolding example_two_playlists_def example_variant_def by code_simp
  have q2: "playQueue example_two_playlists = [''/a0'']"
    unfolding example_two_playlists_def by code_simp
  have k2: "trimQueue (playQueue example_two_playlists) ''/a0'' = playQueue example_two_playlists"
    by (simp add: q2 trimQueue_def)
  have bt: "batch isAbsoluteUrl_spec ?a 0 (priorityBase (playQueue example_two_playlists)) =
      [\<lparr>fileUrl = ''/a0'', priority = 0\<rparr>, \<lparr>fileUrl = ''/a1'', priority = 1\<rparr>]"
    unfolding q2 example_variant_def by code_simp
  have sw: "getSwarmId isAbsoluteUrl_spec example_two_playlists ?a = ''/a''"
    unfolding example_two_playlists_def example_variant_def by code_simp
  from setCurrentChunk_effect [of None isAbsoluteUrl_spec example_two_playlists "''/a0''" 0 ?a] ne l2
  have "setCurrentChunk isAbsoluteUrl_spec (Some ''/a0'') example_two_playlists =
        Inr (example_two_playlists\<lparr>playQueue := trimQueue (playQueue example_two_playlists) ''/a0'',
               loaderCalls := loaderCalls example_two_playlists @
                 [\<lparr>files = batch isAbsoluteUrl_spec ?a (nat 0)
                     (priorityBase (trimQueue (playQueue example_two_playlists) ''/a0'')),
                   swarmId = getSwarmId isAbsoluteUrl_spec example_two_playlists ?a, loadUrl = None\<rparr>]\<rparr>)"
    by blast
  then have c: "setCurrentChunk isAbsoluteUrl_spec (Some ''/a0'') example_two_playlists =
     Inr (example_two_playlists\<lparr>loaderCalls := loaderCalls example_two_playlists @
        [\<lparr>files = [\<lparr>fileUrl = ''/a0'', priority = 0\<rparr>, \<lparr>fileUrl = ''/a1'', priority = 1\<rparr>],
          swarmId = ''/a'', loadUrl = None\<rparr>]\<rparr>)"
    by (simp add: k2 bt sw)
  have p0: "prevLoadUrl new_ChunkManager = None" "playQueue new_ChunkManager = []"
    by (simp_all add: new_ChunkManager_def)
  from setCurrentChunk_effect [of None isAbsoluteUrl_spec new_ChunkManager] p0
  have l3: "getChunkLocation isAbsoluteUrl_spec new_ChunkManager (prevLoadUrl new_ChunkManager) = Inr (None, - 1)"
    by blast
  from setCurrentChunk_effect [of None isAbsoluteUrl_spec new_ChunkManager "''/a0''" "- 1"] ne l3
  have "setCurrentChunk isAbsoluteUrl_spec (Some ''/a0'') new_ChunkManager =
      Inr (new_ChunkManager\<lparr>playQueue := trimQueue (playQueue new_ChunkManager) ''/a0''\<rparr>)"
    by blast
  then have d: "setCurrentChunk isAbsoluteUrl_spec (Some ''/a0'') new_ChunkManager = Inr new_ChunkManager"
    by (simp add: p0 trimQueue_def new_ChunkManager_def)
  from a l1 b l2 q2 c l3 d show ?thesis by simp
qed

text \<open>
  The claim as stated fails where the last requested url does not locate any more: a prior
  request exists and nothing is submitted. It fails as well for a call without url, which
  submits nothing although the last requested url locates.
\<close>

theorem setCurrentChunk_effect_counterexample:
  "prevLoadUrl example_replaced = Some ''/a0'' \<and>
   setCurrentChunk isAbsoluteUrl_spec (Some ''/a0'') example_replaced = Inr example_replaced \<and>
   loaderCalls (projr (setCurrentChunk isAbsoluteUrl_spec (Some ''/a0'') example_replaced)) =
     loaderCalls example_replaced \<and>
   prevLoadUrl example_requested = Some ''/s0'' \<and>
   fst (projr (getChunkLocation isAbsoluteUrl_spec example_requested (Some ''/s0''))) \<noteq> None \<and>
   setCurrentChunk isAbsoluteUrl_spec None example_requested = Inr example_requested"
  unfolding example_replaced_def example_requested_def by code_simp

text \<open>
  C8. \<^verbatim>\<open>abortChunk(u)\<close> while the active chunk request has url \<open>u\<close> clears the active request
  and changes no other field, and a \<^verbatim>\<open>loaded\<close> event for \<open>u\<close> that follows changes nothing and
  invokes no callback; while the active request has another url, or there is none,
  \<^verbatim>\<open>abortChunk(u)\<close> changes nothing.
\<close>

theorem abortChunk_frame:
  "(chunk s = Some c \<and> chunkUrl c = u \<longrightarrow>
      abortChunk u s = s\<lparr>chunk := None\<rparr> \<and>
      onFileLoaded (u, payload) (abortChunk u s) = abortChunk u s \<and>
      invoked (onFileLoaded (u, payload) (abortChunk u s)) = invoked s) \<and>
   (chunk s = Some c \<and> chunkUrl c \<noteq> u \<longrightarrow> abortChunk u s = s) \<and>
   (chunk s = None \<longrightarrow> abortChunk u s = s)"
  by (simp add: abortChunk_def onFileLoaded_def)

theorem abortChunk_frame_witness:
  "chunk example_requested = Some \<lparr>chunkUrl = ''/s0'', onSuccess = Some 1, onError = Some 2\<rparr> \<and>
   abortChunk ''/s0'' example_requested = example_requested\<lparr>chunk := None\<rparr> \<and>
   invoked (onFileLoaded (''/s0'', ''data'') (abortChunk ''/s0'' example_requested)) = [] \<and>
   abortChunk ''/s1'' example_requested = example_requested"
proof -
  let ?c = "\<lparr>chunkUrl = ''/s0'', onSuccess = Some 1, onError = Some 2\<rparr>"
  have h: "chunk example_requested = Some ?c"
    unfolding example_requested_def by code_simp
  have i: "invoked example_requested = []"
    unfolding example_requested_def by code_simp
  have u: "chunkUrl ?c = ''/s0''" "chunkUrl ?c \<noteq> ''/s1''"
    by simp_all
  note t = abortChunk_frame [of example_requested ?c "''/s0''" "''data''"]
  from t h u have a: "abortChunk ''/s0'' example_requested = example_requested\<lparr>chunk := None\<rparr>"
    by blast
  from t h u i
  have b: "invoked (onFileLoaded (''/s0'', ''data'') (abortChunk ''/s0'' example_requested)) = []"
    by metis
  from abortChunk_frame [of example_requested ?c "''/s1''" "''data''"] h u
  have c: "abortChunk ''/s1'' example_requested = example_requested"
    by blast
  from h a b c show ?thesis by blast
qed

text \<open>
  C9. For every segment index of a playlist, \<^verbatim>\<open>getChunkAbsoluteUrl\<close> returns the stored URI
  unchanged when \<^verbatim>\<open>isAbsoluteUrl\<close> recognises it and the base URL followed by the URI
  otherwise; \<^verbatim>\<open>getChildPlaylistAbsoluteUrls\<close> applies the same rule, \<open>resolveUri\<close>, to every
  child playlist reference, in order.
\<close>

theorem absolute_url_resolution:
  "(i < length (manifest_segments (manifest p)) \<longrightarrow>
      getChunkAbsoluteUrl isAbsoluteUrl p (int i) =
        Inr (resolveUri isAbsoluteUrl (baseUrl p) (manifest_segments (manifest p) ! i))) \<and>
   (manifest_playlists (manifest p) = Some refs \<longrightarrow>
      getChildPlaylistAbsoluteUrls isAbsoluteUrl p = map (resolveUri isAbsoluteUrl (baseUrl p)) refs) \<and>
   resolveUri isAbsoluteUrl base uri = (if isAbsoluteUrl uri then uri else base @ uri)"
  by (simp add: getChunkAbsoluteUrl_nth absoluteUrls_def getChildPlaylistAbsoluteUrls_eq resolveUri_def)

theorem absolute_url_resolution_witness:
  "new_Playlist ''/d/p'' (manifest example_playlist) = Inr example_playlist \<and>
   1 < length (manifest_segments (manifest example_playlist)) \<and>
   manifest_playlists (manifest example_playlist) = Some [''v'', ''h://x/w''] \<and>
   getChunkAbsoluteUrl isAbsoluteUrl_spec example_playlist (int 1) = Inr ''h://x/s1'' \<and>
   getChildPlaylistAbsoluteUrls isAbsoluteUrl_spec example_playlist = [''/d/v'', ''h://x/w'']"
proof -
  have h1: "1 < length (manifest_segments (manifest example_playlist))"
    by (simp add: example_playlist_def)
  have h2: "manifest_playlists (manifest example_playlist) = Some [''v'', ''h://x/w'']"
    by (simp add: example_playlist_def)
  have n: "new_Playlist ''/d/p'' (manifest example_playlist) = Inr example_playlist"
    by (simp add: new_Playlist_def example_playlist_def)
  note t = absolute_url_resolution [of 1 example_playlist isAbsoluteUrl_spec "[''v'', ''h://x/w'']"]
  have r1: "resolveUri isAbsoluteUrl_spec (baseUrl example_playlist)
              (manifest_segments (manifest example_playlist) ! 1) = ''h://x/s1''"
    by (simp add: resolveUri_def isAbsoluteUrl_spec_def example_playlist_def)
  have r2: "map (resolveUri isAbsoluteUrl_spec (baseUrl example_playlist)) [''v'', ''h://x/w'']
              = [''/d/v'', ''h://x/w'']"
    by (simp add: resolveUri_def isAbsoluteUrl_spec_def example_playlist_def)
  from t h1 r1 have c1: "getChunkAbsoluteUrl isAbsoluteUrl_spec example_playlist (int 1) = Inr ''h://x/s1''"
    by metis
  from t h2 r2 have c2: "getChildPlaylistAbsoluteUrls isAbsoluteUrl_spec example_playlist = [''/d/v'', ''h://x/w'']"
    by metis
  from n h1 h2 c1 c2 show ?thesis by blast
qed

text \<open>
  C10. When the play queue is not empty and its last element does not locate in any known
  playlist, a \<^verbatim>\<open>loadChunk\<close> that locates its own url leaves the play queue as it is, whatever
  the index of the new chunk.
\<close>

theorem loadChunk_unlocated_previous:
  assumes "playQueue s \<noteq> []"
      and "getChunkLocation isAbsoluteUrl s (Some (last (playQueue s))) = Inr (None, j)"
      and "getChunkLocation isAbsoluteUrl s (Some u) = Inr (Some p, i)"
  shows "\<exists>s'. loadChunk isAbsoluteUrl u onS onE r s = Inr s' \<and> playQueue s' = playQueue s"
  using loadChunk_queue [OF assms(3) assms(1) assms(2), of onS onE r] by simp

theorem loadChunk_unlocated_previous_witness:
  "playQueue example_replaced = [''/a0''] \<and>
   getChunkLocation isAbsoluteUrl_spec example_replaced (Some (last (playQueue example_replaced))) =
     Inr (None, - 1) \<and>
   fst (projr (getChunkLocation isAbsoluteUrl_spec example_replaced (Some ''/a5''))) \<noteq> None \<and>
   snd (projr (getChunkLocation isAbsoluteUrl_spec example_replaced (Some ''/a5''))) = 0 \<and>
   playQueue (projr (loadChunk isAbsoluteUrl_spec ''/a5'' (Some 3) (Some 4) 1 example_replaced)) = [''/a0'']"
proof -
  have q: "playQueue example_replaced = [''/a0'']"
    unfolding example_replaced_def by code_simp
  then have ne: "playQueue example_replaced \<noteq> []" by simp
  have prev: "getChunkLocation isAbsoluteUrl_spec example_replaced (Some (last (playQueue example_replaced))) =
     Inr (None, - 1)"
    unfolding example_replaced_def by code_simp
  have loc: "getChunkLocation isAbsoluteUrl_spec example_replaced (Some ''/a5'') =
     Inr (Some \<lparr>url = ''/a'', baseUrl = ''/'',
                 manifest = \<lparr>manifest_segments = [''a5'', ''a6''], manifest_playlists = None\<rparr>\<rparr>, 0)"
    unfolding example_replaced_def by code_simp
  from loadChunk_unlocated_previous [OF ne prev loc, of "Some 3" "Some 4" 1] q
  have "playQueue (projr (loadChunk isAbsoluteUrl_spec ''/a5'' (Some 3) (Some 4) 1 example_replaced)) = [''/a0'']"
    by auto
  with q prev loc show ?thesis by simp
qed

end
